theory Spec2Isabelle
  imports Complex_Main "HOL-Library.AList"
begin

section \<open>The JavaScript runtime pieces the scheduler relies on\<close>

text \<open>
  A \<^verbatim>\<open>Date\<close> is its time value: an integer number of milliseconds since the epoch,
  UTC.  The setters used by \<^verbatim>\<open>calculateNextExecution\<close> are the ECMAScript abstract
  operations \<^verbatim>\<open>MakeTime\<close>, \<^verbatim>\<open>MakeDay\<close> and \<^verbatim>\<open>MakeDate\<close>; an argument that is not an
  integer is truncated towards zero (\<^verbatim>\<open>ToIntegerOrInfinity\<close>), and an hour outside
  \<open>0..23\<close> or a day outside the month simply carries into the neighbouring day or
  month.  JavaScript numbers are doubles; the model computes with exact reals, which is
  the same thing on the integer and half-integer hour offsets that occur here.
\<close>

definition msPerDay :: int where
  "msPerDay = 86400000"

definition msPerHour :: int where
  "msPerHour = 3600000"

definition msPerMinute :: int where
  "msPerMinute = 60000"

definition js_trunc :: "real \<Rightarrow> int" where
  "js_trunc x = (if 0 \<le> x then \<lfloor>x\<rfloor> else \<lceil>x\<rceil>)"

text \<open>The \<^verbatim>\<open>%\<close> operator: the remainder takes the sign of the dividend.\<close>

definition js_rem :: "real \<Rightarrow> real \<Rightarrow> real" where
  "js_rem a n = a - n * of_int (js_trunc (a / n))"

definition Day :: "int \<Rightarrow> int" where
  "Day t = t div msPerDay"

definition TimeWithinDay :: "int \<Rightarrow> int" where
  "TimeWithinDay t = t mod msPerDay"

text \<open>Day number to civil date (year, month \<open>1..12\<close>, day \<open>1..31\<close>) and back, in the
  proleptic Gregorian calendar, day 0 being 1 January 1970.\<close>

definition civil_from_days :: "int \<Rightarrow> int \<times> int \<times> int" where
  "civil_from_days z0 =
    (let z = z0 + 719468;
         era = z div 146097;
         doe = z - era * 146097;
         yoe = (doe - doe div 1460 + doe div 36524 - doe div 146096) div 365;
         y = yoe + era * 400;
         doy = doe - (365 * yoe + yoe div 4 - yoe div 100);
         mp = (5 * doy + 2) div 153;
         d = doy - (153 * mp + 2) div 5 + 1;
         m = (if mp < 10 then mp + 3 else mp - 9)
     in (if m \<le> 2 then y + 1 else y, m, d))"

definition days_from_civil :: "int \<Rightarrow> int \<Rightarrow> int \<Rightarrow> int" where
  "days_from_civil y0 m d =
    (let y = (if m \<le> 2 then y0 - 1 else y0);
         era = y div 400;
         yoe = y - era * 400;
         doy = (153 * (if m > 2 then m - 3 else m + 9) + 2) div 5 + d - 1;
         doe = yoe * 365 + yoe div 4 - yoe div 100 + doy
     in era * 146097 + doe - 719468)"

definition YearFromTime :: "int \<Rightarrow> int" where
  "YearFromTime t = fst (civil_from_days (Day t))"

definition MonthFromTime :: "int \<Rightarrow> int" where
  "MonthFromTime t = fst (snd (civil_from_days (Day t))) - 1"

definition DateFromTime :: "int \<Rightarrow> int" where
  "DateFromTime t = snd (snd (civil_from_days (Day t)))"

definition WeekDay :: "int \<Rightarrow> int" where
  "WeekDay t = (Day t + 4) mod 7"

definition MakeTime :: "real \<Rightarrow> real \<Rightarrow> real \<Rightarrow> real \<Rightarrow> int" where
  "MakeTime hour minute sec ms =
     js_trunc hour * msPerHour + js_trunc minute * msPerMinute + js_trunc sec * 1000 + js_trunc ms"

definition MakeDay :: "int \<Rightarrow> int \<Rightarrow> int \<Rightarrow> int" where
  "MakeDay year month date = days_from_civil (year + month div 12) (month mod 12 + 1) 1 + date - 1"

definition MakeDate :: "int \<Rightarrow> int \<Rightarrow> int" where
  "MakeDate day time = day * msPerDay + time"

definition getUTCDay :: "int \<Rightarrow> int" where
  "getUTCDay t = WeekDay t"

definition getUTCDate :: "int \<Rightarrow> int" where
  "getUTCDate t = DateFromTime t"

definition getUTCMonth :: "int \<Rightarrow> int" where
  "getUTCMonth t = MonthFromTime t"

definition getUTCHours :: "int \<Rightarrow> int" where
  "getUTCHours t = (t div msPerHour) mod 24"

definition getUTCMinutes :: "int \<Rightarrow> int" where
  "getUTCMinutes t = (t div msPerMinute) mod 60"

definition setUTCHours :: "int \<Rightarrow> real \<Rightarrow> real \<Rightarrow> real \<Rightarrow> real \<Rightarrow> int" where
  "setUTCHours t hour minute sec ms = MakeDate (Day t) (MakeTime hour minute sec ms)"

text \<open>
  \<^verbatim>\<open>setUTCDate(dt)\<close> is \<^verbatim>\<open>MakeDate(MakeDay(Year(t), Month(t), dt), TimeWithinDay(t))\<close>.
  \<^verbatim>\<open>MakeDay\<close> with the year and month of \<open>t\<close> itself is the day number of the first of
  \<open>t\<close>'s month plus \<open>dt - 1\<close>, and the first of \<open>t\<close>'s month is day
  \<open>Day t - (DateFromTime t - 1)\<close>.
\<close>

definition setUTCDate :: "int \<Rightarrow> int \<Rightarrow> int" where
  "setUTCDate t dt = MakeDate (Day t - (DateFromTime t - 1) + dt - 1) (TimeWithinDay t)"

definition setUTCMonth :: "int \<Rightarrow> int \<Rightarrow> int" where
  "setUTCMonth t month =
     MakeDate (MakeDay (YearFromTime t) month (DateFromTime t)) (TimeWithinDay t)"

section \<open>The occurrence calculation (handlers/scheduledMessages.js)\<close>

text \<open>
  A stored schedule.  \<open>time\<close> is the pair \<open>[hours, minutes]\<close> that
  \<^verbatim>\<open>schedule.time.split(':').map(Number)\<close> yields from the stored \<^verbatim>\<open>"HH:MM"\<close> string;
  \<open>dayOfWeek\<close> and \<open>dayOfMonth\<close> are present only on weekly and monthly schedules.
\<close>

record schedule =
  stype :: string
  time :: "int \<times> int"
  timezoneOffset :: real
  dayOfWeek :: "int option"
  dayOfMonth :: "int option"

text \<open>
  \<^verbatim>\<open>calculateNextExecution(schedule)\<close>.  The source reads the clock twice
  (\<^verbatim>\<open>const now = new Date()\<close>, then \<^verbatim>\<open>let nextExecution = new Date()\<close>): \<open>now\<close> and \<open>now2\<close>.
  The result \<open>None\<close> stands for both \<^verbatim>\<open>null\<close> and \<^verbatim>\<open>NaN\<close> (a weekly schedule without
  day of week, a monthly one without day of month); the caller rejects both alike.
\<close>

definition calculateNextExecution :: "int \<Rightarrow> int \<Rightarrow> schedule \<Rightarrow> int option" where
  "calculateNextExecution now now2 sch =
    (let hours = fst (time sch);
         minutes = snd (time sch);
         timezoneOffsetHours = timezoneOffset sch;
         utcHours = js_rem (of_int hours - timezoneOffsetHours + 24) 24;
         nextExecution = now2
     in if stype sch = ''once'' then
          (let nextExecution = setUTCHours nextExecution utcHours (of_int minutes) 0 0
           in if nextExecution \<le> now then None else Some (nextExecution - now))
        else if stype sch = ''daily'' then
          (let nextExecution = setUTCHours nextExecution utcHours (of_int minutes) 0 0;
               nextExecution =
                 (if nextExecution \<le> now
                  then setUTCDate nextExecution (getUTCDate nextExecution + 1)
                  else nextExecution)
           in Some (nextExecution - now))
        else if stype sch = ''weekly'' then
          (case dayOfWeek sch of
             None \<Rightarrow> None
           | Some dayOfWeek_v \<Rightarrow>
              (let currentDay = getUTCDay now;
                   daysUntilNext = dayOfWeek_v - currentDay;
                   daysUntilNext =
                     (if daysUntilNext < 0 \<or>
                         (daysUntilNext = 0 \<and>
                          of_int (getUTCHours now * 60 + getUTCMinutes now)
                            \<ge> utcHours * 60 + of_int minutes)
                      then daysUntilNext + 7 else daysUntilNext);
                   nextExecution = setUTCDate nextExecution (getUTCDate now + daysUntilNext);
                   nextExecution = setUTCHours nextExecution utcHours (of_int minutes) 0 0
               in Some (nextExecution - now)))
        else if stype sch = ''monthly'' then
          (case dayOfMonth sch of
             None \<Rightarrow> None
           | Some dayOfMonth_v \<Rightarrow>
              (let nextExecution = setUTCHours nextExecution utcHours (of_int minutes) 0 0;
                   nextExecution = setUTCDate nextExecution dayOfMonth_v;
                   nextExecution =
                     (if nextExecution \<le> now
                      then setUTCMonth nextExecution (getUTCMonth nextExecution + 1)
                      else nextExecution)
               in Some (nextExecution - now)))
        else None)"

section \<open>The store (data/storage.js)\<close>

text \<open>
  The module keeps nine \<^verbatim>\<open>Map\<close>s.  A JavaScript \<^verbatim>\<open>Map\<close> iterates in insertion order and
  \<^verbatim>\<open>set\<close> on a present key keeps its position, so each is an association list with
  \<open>map_of\<close> for \<^verbatim>\<open>get\<close>, \<open>AList.update\<close> for \<^verbatim>\<open>set\<close> and \<open>AList.delete\<close> for \<^verbatim>\<open>delete\<close>.
  Configurations whose content the store never inspects are opaque strings.
\<close>

record role_entry =
  roleGuildId :: string
  roleChannelId :: string
  roleId :: string

record user_level =
  xp :: int
  level :: int

record scheduled_message =
  msgId :: string
  name :: string
  guildId :: string
  channelId :: string
  content :: string
  schedule :: schedule
  recurring :: bool
  enabled :: bool
  createdBy :: string
  createdAt :: int

record store =
  reactionRoles :: "(string \<times> role_entry list) list"
  buttonRoles :: "(string \<times> role_entry list) list"
  welcomeConfigs :: "(string \<times> string) list"
  leaveConfigs :: "(string \<times> string) list"
  levelingConfigs :: "(string \<times> string) list"
  userLevels :: "(string \<times> user_level) list"
  scheduledMessages :: "(string \<times> scheduled_message list) list"
  ticketConfigs :: "(string \<times> string) list"
  tickets :: "(string \<times> string list) list"

text \<open>
  The whole process: the store's maps, whether \<^verbatim>\<open>setBotClient\<close> has run, the persisted
  file (the last snapshot written, with its \<^verbatim>\<open>lastSaved\<close> stamp), what \<^verbatim>\<open>log.error\<close> has
  printed, the scheduler's \<^verbatim>\<open>activeTimers\<close> map from entry id to timer handle, and the
  runtime's side of \<^verbatim>\<open>setTimeout\<close>: the pending timeouts (handle, the entry captured by
  the callback, delay), the next fresh handle, whether \<^verbatim>\<open>setupScheduledMessages\<close> has
  registered its listeners, the fires that are suspended at \<^verbatim>\<open>await channel.send\<close>, and
  the ids of the entries handed to \<^verbatim>\<open>channel.send\<close> so far.
\<close>

record bot_state =
  store :: store
  botClient :: bool
  storageFile :: "(store \<times> int) option"
  errorLog :: "string list"
  activeTimers :: "(string \<times> nat) list"
  timeouts :: "(nat \<times> scheduled_message \<times> int) list"
  nextTimer :: nat
  listening :: bool
  inFlight :: "scheduled_message list"
  delivered :: "string list"

text \<open>
  What the file system does to one \<^verbatim>\<open>saveToFile\<close> call: whether creating the data
  directory throws (and with which error code), which of the three write strategies
  succeed, whether the \<^verbatim>\<open>chmodSync\<close> of the permission-denied branch succeeds, and
  the clock for \<^verbatim>\<open>lastSaved\<close>.
\<close>

record fs_env =
  mkdirError :: "string option"
  directWriteOk :: bool
  tempRenameOk :: bool
  altCopyOk :: bool
  chmodOk :: bool
  saveClock :: int

text \<open>The \<^verbatim>\<open>catch\<close> block of \<^verbatim>\<open>saveToFile\<close>: it logs and returns.  On the error code
  \<^verbatim>\<open>EACCES\<close> it tries to repair the directory's permissions and logs once more when that
  fails too; \<open>errorLog\<close> takes the \<^verbatim>\<open>log.error\<close> lines.\<close>

definition saveFailed :: "fs_env \<Rightarrow> string \<Rightarrow> bot_state \<Rightarrow> bot_state" where
  "saveFailed env code s =
     s\<lparr>errorLog := errorLog s @
          [''Failed to save configurations to file''] @
          (if code = ''EACCES''
           then [''Permission denied writing to storage file''] @
                (if chmodOk env then [] else [''Could not fix permissions automatically''])
           else [''Write error''])\<rparr>"

definition saveToFile :: "fs_env \<Rightarrow> bot_state \<Rightarrow> bot_state" where
  "saveToFile env s =
    (case mkdirError env of
       Some code \<Rightarrow> saveFailed env code s
     | None \<Rightarrow>
        (let writeSuccess = False;
             writeSuccess = (if \<not> writeSuccess then directWriteOk env else writeSuccess);
             writeSuccess = (if \<not> writeSuccess then tempRenameOk env else writeSuccess);
             writeSuccess = (if \<not> writeSuccess then altCopyOk env else writeSuccess)
         in if writeSuccess then s\<lparr>storageFile := Some (store s, saveClock env)\<rparr>
            else saveFailed env [] s))"

primrec findIndexFrom :: "nat \<Rightarrow> ('a \<Rightarrow> bool) \<Rightarrow> 'a list \<Rightarrow> int" where
  "findIndexFrom i P [] = - 1"
| "findIndexFrom i P (x # xs) = (if P x then int i else findIndexFrom (Suc i) P xs)"

definition findIndex :: "('a \<Rightarrow> bool) \<Rightarrow> 'a list \<Rightarrow> int" where
  "findIndex P xs = findIndexFrom 0 P xs"

definition getOrEmpty :: "(string \<times> 'a list) list \<Rightarrow> string \<Rightarrow> 'a list" where
  "getOrEmpty m k = (case map_of m k of Some v \<Rightarrow> v | None \<Rightarrow> [])"

definition saveScheduledMessage :: "fs_env \<Rightarrow> string \<Rightarrow> scheduled_message \<Rightarrow> bot_state \<Rightarrow> bot_state" where
  "saveScheduledMessage env gid message s =
    (let current = getOrEmpty (scheduledMessages (store s)) gid;
         index = findIndex (\<lambda>m. msgId m = msgId message) current;
         current = (if index \<ge> 0 then current[nat index := message] else current @ [message]);
         s = s\<lparr>store := (store s)\<lparr>scheduledMessages :=
                 AList.update gid current (scheduledMessages (store s))\<rparr>\<rparr>
     in saveToFile env s)"

definition getScheduledMessages :: "bot_state \<Rightarrow> (string \<times> scheduled_message list) list" where
  "getScheduledMessages s = scheduledMessages (store s)"

definition getGuildScheduledMessages :: "string \<Rightarrow> bot_state \<Rightarrow> scheduled_message list" where
  "getGuildScheduledMessages gid s = getOrEmpty (scheduledMessages (store s)) gid"

definition removeScheduledMessage :: "fs_env \<Rightarrow> string \<Rightarrow> string \<Rightarrow> bot_state \<Rightarrow> bool \<times> bot_state" where
  "removeScheduledMessage env gid messageId s =
    (let current = getOrEmpty (scheduledMessages (store s)) gid;
         filtered = filter (\<lambda>m. msgId m \<noteq> messageId) current
     in if length filtered < length current
        then (True,
              saveToFile env
                (s\<lparr>store := (store s)\<lparr>scheduledMessages :=
                     AList.update gid filtered (scheduledMessages (store s))\<rparr>\<rparr>))
        else (False, s))"

text \<open>\<^verbatim>\<open>config && config.length > 0 && config[0]?.guildId === guildId\<close>\<close>

definition configOfGuild :: "string \<Rightarrow> role_entry list \<Rightarrow> bool" where
  "configOfGuild gid config = (case config of [] \<Rightarrow> False | r # _ \<Rightarrow> roleGuildId r = gid)"

definition startsWith :: "string \<Rightarrow> string \<Rightarrow> bool" where
  "startsWith k p = (take (length p) k = p)"

definition getUserLevel :: "string \<Rightarrow> string \<Rightarrow> bot_state \<Rightarrow> user_level" where
  "getUserLevel gid userId s =
     (case map_of (userLevels (store s)) (gid @ ''-'' @ userId) of
        Some l \<Rightarrow> l | None \<Rightarrow> \<lparr>xp = 0, level = 0\<rparr>)"

definition getGuildReactionRoleMessages :: "string \<Rightarrow> bot_state \<Rightarrow> string list" where
  "getGuildReactionRoleMessages gid s =
     map fst (filter (\<lambda>(messageId, config). configOfGuild gid config) (reactionRoles (store s)))"

definition getGuildButtonRoleMessages :: "string \<Rightarrow> bot_state \<Rightarrow> string list" where
  "getGuildButtonRoleMessages gid s =
     map fst (filter (\<lambda>(messageId, config). configOfGuild gid config) (buttonRoles (store s)))"

section \<open>The scheduler (handlers/scheduledMessages.js)\<close>

text \<open>The runtime's \<^verbatim>\<open>clearTimeout\<close> and \<^verbatim>\<open>setTimeout\<close>; clearing a handle that has already
  fired or been cleared does nothing.  Node keeps a delay only between 1 and
  \<open>2\<^sup>3\<^sup>1 - 1\<close> milliseconds (about 24.8 days) and replaces any other by 1.\<close>

definition clearTimeout :: "nat \<Rightarrow> bot_state \<Rightarrow> bot_state" where
  "clearTimeout timer s = s\<lparr>timeouts := filter (\<lambda>e. fst e \<noteq> timer) (timeouts s)\<rparr>"

definition timeoutDelay :: "int \<Rightarrow> int" where
  "timeoutDelay delay = (if 1 \<le> delay \<and> delay \<le> 2147483647 then delay else 1)"

definition setTimeout :: "scheduled_message \<Rightarrow> int \<Rightarrow> bot_state \<Rightarrow> nat \<times> bot_state" where
  "setTimeout messageConfig delay s =
     (nextTimer s,
      s\<lparr>timeouts := timeouts s @ [(nextTimer s, messageConfig, timeoutDelay delay)],
        nextTimer := Suc (nextTimer s)\<rparr>)"

text \<open>\<^verbatim>\<open>scheduleMessage(client, messageConfig)\<close>; \<open>now\<close> and \<open>now2\<close> are the two clock
  readings of \<^verbatim>\<open>calculateNextExecution\<close>.  \<^verbatim>\<open>!delay || delay < 0\<close> rejects \<^verbatim>\<open>null\<close>, \<^verbatim>\<open>NaN\<close>,
  zero and negative delays.\<close>

definition scheduleMessage :: "int \<Rightarrow> int \<Rightarrow> scheduled_message \<Rightarrow> bot_state \<Rightarrow> bot_state" where
  "scheduleMessage now now2 messageConfig s =
    (let s = (case map_of (activeTimers s) (msgId messageConfig) of
                Some existingTimer \<Rightarrow> clearTimeout existingTimer s
              | None \<Rightarrow> s)
     in case calculateNextExecution now now2 (schedule messageConfig) of
          None \<Rightarrow> s
        | Some delay \<Rightarrow>
            if delay = 0 \<or> delay < 0 then s
            else (let (timer, s) = setTimeout messageConfig delay s
                  in s\<lparr>activeTimers :=
                         AList.update (msgId messageConfig) timer (activeTimers s)\<rparr>))"

text \<open>
  \<^verbatim>\<open>executeScheduledMessage\<close> is an \<^verbatim>\<open>async\<close> function with one suspension point,
  \<^verbatim>\<open>await channel.send(messageData)\<close>.  Up to there it runs in one piece
  (\<open>executeBegin\<close>): the channel lookup and the permission check return early; otherwise
  the message is handed to \<^verbatim>\<open>channel.send\<close>.  When the send settles the rest runs
  (\<open>executeResume\<close>): after a fulfilled send the entry is rescheduled or retired, after
  a rejected one control passes to the \<^verbatim>\<open>catch\<close> block, which only logs.  Entries
  built by \<^verbatim>\<open>/schedule-message\<close> carry no embed, so the embed branch is left out; any
  other exception inside the \<^verbatim>\<open>try\<close> block ends in the same \<^verbatim>\<open>catch\<close> as a rejected send.
\<close>

datatype channel_check = ChannelNotFound | MissingPermission | ChannelReady

definition executeBegin :: "channel_check \<Rightarrow> scheduled_message \<Rightarrow> bot_state \<Rightarrow> bot_state" where
  "executeBegin chk messageConfig s =
    (case chk of
       ChannelNotFound \<Rightarrow> s\<lparr>errorLog := errorLog s @ [''Scheduled message channel not found'']\<rparr>
     | MissingPermission \<Rightarrow> s\<lparr>errorLog := errorLog s @ [''Bot missing send messages permission'']\<rparr>
     | ChannelReady \<Rightarrow>
         s\<lparr>delivered := delivered s @ [msgId messageConfig],
           inFlight := inFlight s @ [messageConfig]\<rparr>)"

definition executeResume ::
  "fs_env \<Rightarrow> int \<Rightarrow> int \<Rightarrow> bool \<Rightarrow> scheduled_message \<Rightarrow> bot_state \<Rightarrow> bot_state" where
  "executeResume env now now2 sendOk messageConfig s =
    (let s = s\<lparr>inFlight := remove1 messageConfig (inFlight s)\<rparr>
     in if sendOk then
          (if recurring messageConfig then scheduleMessage now now2 messageConfig s
           else (let (removed, s) =
                       removeScheduledMessage env (guildId messageConfig) (msgId messageConfig) s
                 in s\<lparr>activeTimers := AList.delete (msgId messageConfig) (activeTimers s)\<rparr>))
        else s\<lparr>errorLog := errorLog s @ [''Error executing scheduled message'']\<rparr>)"

text \<open>A fire with nothing else running between the send and its settlement.\<close>

definition executeScheduledMessage ::
  "fs_env \<Rightarrow> int \<Rightarrow> int \<Rightarrow> channel_check \<Rightarrow> bool \<Rightarrow> scheduled_message \<Rightarrow> bot_state \<Rightarrow> bot_state" where
  "executeScheduledMessage env now now2 chk sendOk messageConfig s =
    (case chk of
       ChannelReady \<Rightarrow> executeResume env now now2 sendOk messageConfig (executeBegin chk messageConfig s)
     | _ \<Rightarrow> executeBegin chk messageConfig s)"

text \<open>The runtime fires a pending timeout: it leaves the pending list and its callback
  starts \<^verbatim>\<open>executeScheduledMessage\<close> with the entry it captured.\<close>

definition timerExpires :: "nat \<Rightarrow> channel_check \<Rightarrow> bot_state \<Rightarrow> bot_state" where
  "timerExpires timer chk s =
    (case filter (\<lambda>e. fst e = timer) (timeouts s) of
       [] \<Rightarrow> s
     | e # _ \<Rightarrow> executeBegin chk (fst (snd e)) (clearTimeout timer s))"

text \<open>The \<^verbatim>\<open>guildConfigReset\<close> listener registered by \<^verbatim>\<open>setupScheduledMessages\<close>.  It
  reads the guild's entries from the store and runs \<open>cancelListed\<close>, the body of its
  loop, on each; it returns the state and \<^verbatim>\<open>cancelledCount\<close>.\<close>

definition cancelListed :: "scheduled_message \<Rightarrow> bot_state \<times> nat \<Rightarrow> bot_state \<times> nat" where
  "cancelListed message acc =
    (let s = fst acc; cancelledCount = snd acc
     in case map_of (activeTimers s) (msgId message) of
          Some timer \<Rightarrow>
            ((clearTimeout timer s)\<lparr>activeTimers :=
                 AList.delete (msgId message) (activeTimers s)\<rparr>,
             cancelledCount + 1)
        | None \<Rightarrow> (s, cancelledCount))"

definition onGuildConfigReset :: "string \<Rightarrow> bot_state \<Rightarrow> bot_state \<times> nat" where
  "onGuildConfigReset gid s =
    (let guildMessages = getOrEmpty (getScheduledMessages s) gid
     in fold cancelListed guildMessages (s, 0))"

text \<open>\<^verbatim>\<open>setupScheduledMessages\<close>: arm every enabled stored entry and register the
  listeners.  (One pair of clock readings serves the whole start-up loop.)\<close>

definition setupScheduledMessages :: "int \<Rightarrow> int \<Rightarrow> bot_state \<Rightarrow> bot_state" where
  "setupScheduledMessages now now2 s =
    (let allScheduled = getScheduledMessages s;
         s = fold (\<lambda>(gid, messages) s.
                    fold (\<lambda>message s.
                           if enabled message then scheduleMessage now now2 message s else s)
                      messages s)
               allScheduled s
     in s\<lparr>listening := True\<rparr>)"

definition cancelScheduledMessage :: "string \<Rightarrow> bot_state \<Rightarrow> bool \<times> bot_state" where
  "cancelScheduledMessage messageId s =
    (case map_of (activeTimers s) messageId of
       Some timer \<Rightarrow>
         (True, (clearTimeout timer s)\<lparr>activeTimers := AList.delete messageId (activeTimers s)\<rparr>)
     | None \<Rightarrow> (False, s))"

definition cancelAllScheduledMessages :: "bot_state \<Rightarrow> bot_state" where
  "cancelAllScheduledMessages s =
     (fold (\<lambda>(i, timer) s. clearTimeout timer s) (activeTimers s) s)\<lparr>activeTimers := []\<rparr>"

text \<open>The pending timeouts whose callback carries the entry id \<open>i\<close>.\<close>

definition timersFor :: "string \<Rightarrow> bot_state \<Rightarrow> (nat \<times> scheduled_message \<times> int) list" where
  "timersFor i s = filter (\<lambda>e. msgId (fst (snd e)) = i) (timeouts s)"

section \<open>Reset of one guild (\<^verbatim>\<open>resetGuildConfig\<close> in data/storage.js)\<close>

text \<open>
  \<^verbatim>\<open>resetGuildConfig\<close> is \<^verbatim>\<open>async\<close>.  Its first synchronous piece (\<open>resetNotify\<close>) emits
  \<^verbatim>\<open>guildConfigReset\<close> when a bot client is registered; \<^verbatim>\<open>emit\<close> runs the listeners at
  once.  Of the listeners only the scheduler's touches the state modelled here.  Then the
  function waits (\<^verbatim>\<open>await new Promise(resolve => setTimeout(resolve, 500))\<close> and the
  awaited deletions of panel messages on the chat platform), and other callbacks may run.
  Its last synchronous piece (\<open>resetClear\<close>) deletes the guild's data and saves.
  \<open>deletedMessages\<close> is the number of panel messages the platform deleted in between.
  The constant fields of the result (\<^verbatim>\<open>welcomeRemoved: true\<close> and the like) are left out.
\<close>

record reset_result =
  reactionRolesRemoved :: nat
  buttonRolesRemoved :: nat
  userLevelsRemoved :: nat
  scheduledMessagesRemoved :: bool
  messagesDeleted :: nat

definition emitGuildConfigReset :: "string \<Rightarrow> bot_state \<Rightarrow> bot_state" where
  "emitGuildConfigReset gid s = (if listening s then fst (onGuildConfigReset gid s) else s)"

definition resetNotify :: "string \<Rightarrow> bot_state \<Rightarrow> bot_state" where
  "resetNotify gid s = (if botClient s then emitGuildConfigReset gid s else s)"

definition resetClear :: "fs_env \<Rightarrow> nat \<Rightarrow> string \<Rightarrow> bot_state \<Rightarrow> reset_result \<times> bot_state" where
  "resetClear env deletedMessages gid s =
    (let st = store s;
         hadScheduledMessages = (map_of (scheduledMessages st) gid \<noteq> None);
         removedCount =
           length (filter (\<lambda>(messageId, config). configOfGuild gid config) (reactionRoles st));
         buttonRemovedCount =
           length (filter (\<lambda>(messageId, config). configOfGuild gid config) (buttonRoles st));
         removedLevels =
           length (filter (\<lambda>(key, l). startsWith key (gid @ ''-'')) (userLevels st));
         st = st\<lparr>welcomeConfigs := AList.delete gid (welcomeConfigs st),
                 leaveConfigs := AList.delete gid (leaveConfigs st),
                 levelingConfigs := AList.delete gid (levelingConfigs st),
                 scheduledMessages := AList.delete gid (scheduledMessages st),
                 ticketConfigs := AList.delete gid (ticketConfigs st),
                 tickets := AList.delete gid (tickets st),
                 reactionRoles :=
                   filter (\<lambda>(messageId, config). \<not> configOfGuild gid config) (reactionRoles st),
                 buttonRoles :=
                   filter (\<lambda>(messageId, config). \<not> configOfGuild gid config) (buttonRoles st),
                 userLevels :=
                   filter (\<lambda>(key, l). \<not> startsWith key (gid @ ''-'')) (userLevels st)\<rparr>
     in (\<lparr>reactionRolesRemoved = removedCount,
          buttonRolesRemoved = buttonRemovedCount,
          userLevelsRemoved = removedLevels,
          scheduledMessagesRemoved = hadScheduledMessages,
          messagesDeleted = deletedMessages\<rparr>,
         saveToFile env (s\<lparr>store := st\<rparr>)))"

text \<open>The reset with nothing else running during its waits.\<close>

definition resetGuildConfig :: "fs_env \<Rightarrow> nat \<Rightarrow> string \<Rightarrow> bot_state \<Rightarrow> reset_result \<times> bot_state" where
  "resetGuildConfig env deletedMessages gid s =
     resetClear env (if botClient s then deletedMessages else 0) gid (resetNotify gid s)"

section \<open>The commands\<close>

text \<open>
  \<^verbatim>\<open>/schedule-message\<close>.  The options arrive typed by the platform: \<^verbatim>\<open>timezone-offset\<close>,
  \<^verbatim>\<open>day-of-week\<close> and \<^verbatim>\<open>day-of-month\<close> are integer options (\<^verbatim>\<open>addIntegerOption\<close>, read
  with \<^verbatim>\<open>getInteger\<close>, \<^verbatim>\<open>null\<close> when absent).
\<close>

record schedule_request =
  reqGuildId :: string
  reqName :: string
  reqChannelId :: string
  reqType :: string
  reqTime :: string
  reqMessage :: string
  reqDayOfWeek :: "int option"
  reqDayOfMonth :: "int option"
  reqTimezoneOffset :: "int option"
  reqUserId :: string

datatype schedule_reply =
  WeeklyNeedsDayOfWeek | MonthlyNeedsDayOfMonth | InvalidTimeFormat | ScheduleCreated

definition isDigit :: "char \<Rightarrow> bool" where
  "isDigit c = (c \<in> set ''0123456789'')"

text \<open>The test \<^verbatim>\<open>/^([01]?[0-9]|2[0-3]):[0-5][0-9]$/\<close>.\<close>

definition timeFormatOk :: "string \<Rightarrow> bool" where
  "timeFormatOk t =
    (case t of
       [a, b, c, d] \<Rightarrow> isDigit a \<and> b = CHR '':'' \<and> c \<in> set ''012345'' \<and> isDigit d
     | [a, b, c, d, e] \<Rightarrow>
         ((a \<in> set ''01'' \<and> isDigit b) \<or> (a = CHR ''2'' \<and> b \<in> set ''0123''))
         \<and> c = CHR '':'' \<and> d \<in> set ''012345'' \<and> isDigit e
     | _ \<Rightarrow> False)"

text \<open>\<^verbatim>\<open>Number\<close> on a string of decimal digits, and \<^verbatim>\<open>timeInput.split(':').map(Number)\<close>.\<close>

definition numberOfDigits :: "string \<Rightarrow> int" where
  "numberOfDigits ds = foldl (\<lambda>n c. 10 * n + (int (of_char c) - 48)) 0 ds"

definition splitTime :: "string \<Rightarrow> int \<times> int" where
  "splitTime t =
     (numberOfDigits (takeWhile (\<lambda>c. c \<noteq> CHR '':'') t),
      numberOfDigits (drop 1 (dropWhile (\<lambda>c. c \<noteq> CHR '':'') t)))"

text \<open>The decimal digits of \<^verbatim>\<open>Date.now()\<close> inside the entry id.\<close>

definition digitChar :: "nat \<Rightarrow> char" where
  "digitChar d =
     (if d = 0 then CHR ''0'' else if d = 1 then CHR ''1'' else if d = 2 then CHR ''2''
      else if d = 3 then CHR ''3'' else if d = 4 then CHR ''4'' else if d = 5 then CHR ''5''
      else if d = 6 then CHR ''6'' else if d = 7 then CHR ''7'' else if d = 8 then CHR ''8''
      else CHR ''9'')"

function decimal :: "nat \<Rightarrow> string" where
  "decimal n = (if n < 10 then [digitChar n] else decimal (n div 10) @ [digitChar (n mod 10)])"
  by pat_completeness auto
termination
  by (relation "measure (\<lambda>n. n)") auto

declare decimal.simps [simp del]

definition scheduleMessageCommand ::
  "fs_env \<Rightarrow> int \<Rightarrow> int \<Rightarrow> int \<Rightarrow> int \<Rightarrow> schedule_request \<Rightarrow> bot_state
     \<Rightarrow> schedule_reply \<times> bot_state" where
  "scheduleMessageCommand env idClock createdClock now now2 req s =
    (if reqType req = ''weekly'' \<and> reqDayOfWeek req = None then (WeeklyNeedsDayOfWeek, s)
     else if reqType req = ''monthly'' \<and> reqDayOfMonth req = None then (MonthlyNeedsDayOfMonth, s)
     else
       (let timezoneOffset = (case reqTimezoneOffset req of None \<Rightarrow> 0 | Some z \<Rightarrow> z)
        in if \<not> timeFormatOk (reqTime req) then (InvalidTimeFormat, s)
           else
             (let schedule =
                    \<lparr>stype = reqType req,
                     time = splitTime (reqTime req),
                     timezoneOffset = of_int timezoneOffset,
                     dayOfWeek = (if reqType req = ''weekly'' then reqDayOfWeek req else None),
                     dayOfMonth = (if reqType req = ''weekly'' then None
                                   else if reqType req = ''monthly'' then reqDayOfMonth req
                                   else None)\<rparr>;
                  recurring = (reqType req \<noteq> ''once'');
                  messageConfig =
                    \<lparr>msgId = reqGuildId req @ ''-'' @ decimal (nat idClock),
                     name = reqName req,
                     guildId = reqGuildId req,
                     channelId = reqChannelId req,
                     content = reqMessage req,
                     schedule = schedule,
                     recurring = recurring,
                     enabled = True,
                     createdBy = reqUserId req,
                     createdAt = createdClock\<rparr>;
                  s = saveScheduledMessage env (reqGuildId req) messageConfig s;
                  s = (if listening s then scheduleMessage now now2 messageConfig s else s)
              in (ScheduleCreated, s))))"

text \<open>\<^verbatim>\<open>/remove-scheduled\<close>: the entry is looked up by name; the reply tells whether a
  timer was cleared.\<close>

datatype remove_reply = NoSuchScheduledMessage | ScheduledMessageRemoved bool

definition removeScheduledCommand ::
  "fs_env \<Rightarrow> string \<Rightarrow> string \<Rightarrow> bot_state \<Rightarrow> remove_reply \<times> bot_state" where
  "removeScheduledCommand env gid messageName s =
    (let allScheduled = getScheduledMessages s;
         guildMessages = getOrEmpty allScheduled gid
     in case find (\<lambda>msg. name msg = messageName) guildMessages of
          None \<Rightarrow> (NoSuchScheduledMessage, s)
        | Some messageToRemove \<Rightarrow>
            (let (timerCancelled, s) = cancelScheduledMessage (msgId messageToRemove) s;
                 (removed, s) = removeScheduledMessage env gid (msgId messageToRemove) s
             in (ScheduledMessageRemoved timerCancelled, s)))"

section \<open>The specification's reference-time formula\<close>

text \<open>
  The specification's words, for comparison with \<open>calculateNextExecution\<close>:
  \<^verbatim>\<open>referenceHour = (localHour - tzOffsetHours + 24) mod 24\<close>, preserving the minute
  component; as a time of day in milliseconds.
\<close>

definition spec_referenceHour :: "real \<Rightarrow> real \<Rightarrow> real" where
  "spec_referenceHour localHour tzOffsetHours =
     (let x = localHour - tzOffsetHours + 24 in x - 24 * of_int \<lfloor>x / 24\<rfloor>)"

definition spec_referenceTimeOfDay :: "real \<Rightarrow> real \<Rightarrow> real \<Rightarrow> real" where
  "spec_referenceTimeOfDay localHour localMinute tzOffsetHours =
     spec_referenceHour localHour tzOffsetHours * 3600000 + localMinute * 60000"

section \<open>Auxiliary notions for the statements\<close>

text \<open>The timer registry tracks entry \<open>i\<close>: every pending timeout whose callback carries
  \<open>i\<close> is the one \<open>activeTimers\<close> records for \<open>i\<close>.\<close>

definition tracked :: "string \<Rightarrow> bot_state \<Rightarrow> bool" where
  "tracked i s =
     list_all (\<lambda>e. msgId (fst (snd e)) = i \<longrightarrow> map_of (activeTimers s) i = Some (fst e))
       (timeouts s)"

text \<open>Handles are handed out in increasing order: no pending timeout has a handle that
  \<^verbatim>\<open>setTimeout\<close> is still to return.\<close>

definition handlesFresh :: "bot_state \<Rightarrow> bool" where
  "handlesFresh s = list_all (\<lambda>e. fst e < nextTimer s) (timeouts s)"

text \<open>The state in memory, the persisted file and the error log put aside.\<close>

definition inMemory :: "bot_state \<Rightarrow> bot_state" where
  "inMemory s = s\<lparr>storageFile := None, errorLog := []\<rparr>"


section \<open>Concrete states and inputs\<close>

definition ex_fsOk :: fs_env where
  "ex_fsOk = \<lparr>mkdirError = None, directWriteOk = True, tempRenameOk = True,
              altCopyOk = True, chmodOk = True, saveClock = 1706695200003\<rparr>"

definition ex_fsDown :: fs_env where
  "ex_fsDown = \<lparr>mkdirError = None, directWriteOk = False, tempRenameOk = False,
                altCopyOk = False, chmodOk = False, saveClock = 1706695200003\<rparr>"

definition ex_emptyStore :: store where
  "ex_emptyStore = \<lparr>reactionRoles = [], buttonRoles = [], welcomeConfigs = [],
      leaveConfigs = [], levelingConfigs = [], userLevels = [], scheduledMessages = [],
      ticketConfigs = [], tickets = []\<rparr>"

text \<open>The bot just after start-up with nothing configured.\<close>

definition ex_started :: bot_state where
  "ex_started = \<lparr>store = ex_emptyStore, botClient = True, storageFile = None, errorLog = [],
      activeTimers = [], timeouts = [], nextTimer = 0, listening = True, inFlight = [],
      delivered = []\<rparr>"

text \<open>A daily entry at 09:00, five hours behind UTC, and a one-time entry at 23:00 UTC, as
  \<^verbatim>\<open>/schedule-message\<close> builds them in guild \<open>100\<close> at clock reading 17; \<open>ex_now\<close> is
  31 January 2024, 10:00:00.002 UTC.\<close>

definition ex_now :: int where
  "ex_now = 1706695200002"

definition ex_dailySchedule :: schedule where
  "ex_dailySchedule = \<lparr>stype = ''daily'', time = (9, 0), timezoneOffset = - 5,
      dayOfWeek = None, dayOfMonth = None\<rparr>"

definition ex_daily :: scheduled_message where
  "ex_daily = \<lparr>msgId = ''100-17'', name = ''news'', guildId = ''100'', channelId = ''200'',
      content = ''hello'', schedule = ex_dailySchedule, recurring = True, enabled = True,
      createdBy = ''300'', createdAt = 1706695200001\<rparr>"

definition ex_dailyRequest :: schedule_request where
  "ex_dailyRequest = \<lparr>reqGuildId = ''100'', reqName = ''news'', reqChannelId = ''200'',
      reqType = ''daily'', reqTime = ''09:00'', reqMessage = ''hello'', reqDayOfWeek = None,
      reqDayOfMonth = None, reqTimezoneOffset = Some (- 5), reqUserId = ''300''\<rparr>"

definition ex_once :: scheduled_message where
  "ex_once = \<lparr>msgId = ''100-18'', name = ''launch'', guildId = ''100'', channelId = ''200'',
      content = ''now'',
      schedule = \<lparr>stype = ''once'', time = (23, 0), timezoneOffset = 0,
                   dayOfWeek = None, dayOfMonth = None\<rparr>,
      recurring = False, enabled = True, createdBy = ''300'', createdAt = 1706695200001\<rparr>"

text \<open>A daily entry at 00:00 with the offset \<open>+30\<close>, which \<^verbatim>\<open>/schedule-message\<close> accepts
  (the option has no bounds), and the request that builds it; \<open>ex_evening\<close> is
  31 January 2024, 19:00 UTC.\<close>

definition ex_evening :: int where
  "ex_evening = 1706727600000"

definition ex_farSchedule :: schedule where
  "ex_farSchedule = \<lparr>stype = ''daily'', time = (0, 0), timezoneOffset = 30,
      dayOfWeek = None, dayOfMonth = None\<rparr>"

definition ex_far :: scheduled_message where
  "ex_far = \<lparr>msgId = ''100-17'', name = ''far'', guildId = ''100'', channelId = ''200'',
      content = ''hello'', schedule = ex_farSchedule, recurring = True, enabled = True,
      createdBy = ''300'', createdAt = 1706695200001\<rparr>"

definition ex_farRequest :: schedule_request where
  "ex_farRequest = \<lparr>reqGuildId = ''100'', reqName = ''far'', reqChannelId = ''200'',
      reqType = ''daily'', reqTime = ''00:00'', reqMessage = ''hello'', reqDayOfWeek = None,
      reqDayOfMonth = None, reqTimezoneOffset = Some 30, reqUserId = ''300''\<rparr>"

text \<open>The bot with \<open>ex_daily\<close> (respectively \<open>ex_once\<close>) stored and armed under handle 0.\<close>

definition ex_dailyArmed :: bot_state where
  "ex_dailyArmed = ex_started\<lparr>
      store := ex_emptyStore\<lparr>scheduledMessages := [(''100'', [ex_daily])]\<rparr>,
      activeTimers := [(''100-17'', 0)],
      timeouts := [(0, ex_daily, 14399998)],
      nextTimer := 1\<rparr>"

definition ex_onceArmed :: bot_state where
  "ex_onceArmed = ex_started\<lparr>
      store := ex_emptyStore\<lparr>scheduledMessages := [(''100'', [ex_once])]\<rparr>,
      activeTimers := [(''100-18'', 0)],
      timeouts := [(0, ex_once, 46799998)],
      nextTimer := 1\<rparr>"

text \<open>Two guilds, \<open>100\<close> and \<open>200\<close>, each with a welcome configuration, a reaction-role
  panel and a user level; guild \<open>100\<close> also has \<open>ex_daily\<close> armed.\<close>

definition ex_twoGuilds :: bot_state where
  "ex_twoGuilds = ex_dailyArmed\<lparr>
      store := ex_emptyStore\<lparr>
        scheduledMessages := [(''100'', [ex_daily])],
        welcomeConfigs := [(''100'', ''welcome-100''), (''200'', ''welcome-200'')],
        reactionRoles :=
          [(''900'', [\<lparr>roleGuildId = ''100'', roleChannelId = ''201'', roleId = ''1''\<rparr>]),
           (''901'', [\<lparr>roleGuildId = ''200'', roleChannelId = ''202'', roleId = ''2''\<rparr>])],
        userLevels := [(''100-7'', \<lparr>xp = 50, level = 1\<rparr>), (''200-7'', \<lparr>xp = 20, level = 0\<rparr>)]\<rparr>\<rparr>"

section \<open>Evaluation rules\<close>

lemmas ex_defs = ex_fsOk_def ex_fsDown_def ex_emptyStore_def ex_started_def ex_now_def
  ex_dailySchedule_def ex_daily_def ex_dailyRequest_def ex_once_def ex_dailyArmed_def
  ex_onceArmed_def ex_twoGuilds_def ex_evening_def ex_farSchedule_def ex_far_def
  ex_farRequest_def

lemmas date_defs = js_rem_def js_trunc_def setUTCHours_def MakeDate_def MakeTime_def Day_def
  msPerDay_def msPerHour_def msPerMinute_def setUTCDate_def getUTCDate_def TimeWithinDay_def

lemmas sched_defs = scheduleMessage_def clearTimeout_def setTimeout_def timeoutDelay_def
  executeBegin_def
  executeResume_def executeScheduledMessage_def timerExpires_def cancelScheduledMessage_def
  timersFor_def cancelListed_def onGuildConfigReset_def

lemmas store_defs = saveToFile_def saveFailed_def saveScheduledMessage_def getOrEmpty_def
  findIndex_def getScheduledMessages_def getGuildScheduledMessages_def
  removeScheduledMessage_def

lemmas cmd_defs = scheduleMessageCommand_def removeScheduledCommand_def timeFormatOk_def
  isDigit_def splitTime_def numberOfDigits_def digitChar_def decimal.simps

lemma daily_calc: "calculateNextExecution ex_now ex_now ex_dailySchedule = Some 14399998"
  by (simp add: calculateNextExecution_def Let_def ex_defs date_defs)

lemma once_calc: "calculateNextExecution ex_now ex_now (schedule ex_once) = Some 46799998"
  by (simp add: calculateNextExecution_def Let_def ex_defs date_defs)

lemma create_daily:
  "scheduleMessageCommand ex_fsOk 17 1706695200001 ex_now ex_now ex_dailyRequest ex_started
     = (ScheduleCreated,
        ex_dailyArmed\<lparr>storageFile := Some (store ex_dailyArmed, 1706695200003)\<rparr>)"
  using daily_calc
  by (simp add: cmd_defs store_defs sched_defs Let_def ex_defs)

section \<open>The occurrence calculation\<close>

lemma js_trunc_of_int: "js_trunc (of_int n) = n"
  by (simp add: js_trunc_def)

lemma js_trunc_zero: "js_trunc 0 = 0"
  by (simp add: js_trunc_def)

lemma js_rem_range:
  assumes "0 \<le> a"
  shows "0 \<le> js_rem a 24 \<and> js_rem a 24 < 24"
proof -
  have nn: "0 \<le> a / 24" using assms by simp
  have eq: "js_rem a 24 = a - 24 * of_int \<lfloor>a / 24\<rfloor>"
    using nn by (simp add: js_rem_def js_trunc_def)
  have lo: "of_int \<lfloor>a / 24\<rfloor> \<le> a / 24" by (rule of_int_floor_le)
  have hi: "a / 24 < of_int \<lfloor>a / 24\<rfloor> + 1" by linarith
  show ?thesis using lo hi by (simp add: eq field_simps)
qed

lemma js_trunc_js_rem_range:
  assumes "0 \<le> a"
  shows "0 \<le> js_trunc (js_rem a 24) \<and> js_trunc (js_rem a 24) \<le> 23"
proof -
  from js_rem_range [OF assms] have r: "0 \<le> js_rem a 24" "js_rem a 24 < 24" by simp_all
  have "js_trunc (js_rem a 24) = \<lfloor>js_rem a 24\<rfloor>" using r by (simp add: js_trunc_def)
  moreover have "0 \<le> \<lfloor>js_rem a 24\<rfloor>" using r by simp
  moreover have "\<lfloor>js_rem a 24\<rfloor> < 24" using r by (simp add: floor_less_iff)
  ultimately show ?thesis by simp
qed

lemma MakeTime_range:
  assumes "0 \<le> a" "0 \<le> m" "m < 60"
  shows "0 \<le> MakeTime (js_rem a 24) (of_int m) 0 0
         \<and> MakeTime (js_rem a 24) (of_int m) 0 0 \<le> 86340000"
proof -
  from js_trunc_js_rem_range [OF assms(1)]
  have "0 \<le> js_trunc (js_rem a 24)" "js_trunc (js_rem a 24) \<le> 23" by simp_all
  then show ?thesis using assms(2,3)
    by (simp add: MakeTime_def js_trunc_of_int js_trunc_zero msPerHour_def msPerMinute_def)
qed

text \<open>Moving a date to the next day of the month adds exactly one day.\<close>

lemma setUTCDate_next_day: "setUTCDate t (getUTCDate t + 1) = t + msPerDay"
proof -
  have "t = Day t * msPerDay + TimeWithinDay t"
    by (simp add: Day_def TimeWithinDay_def)
  then show ?thesis
    by (simp add: setUTCDate_def getUTCDate_def MakeDate_def algebra_simps)
qed

lemma daily_delay:
  assumes st: "stype sch = ''daily''"
    and c: "c = setUTCHours now2
                 (js_rem (of_int (fst (time sch)) - timezoneOffset sch + 24) 24)
                 (of_int (snd (time sch))) 0 0"
  shows "calculateNextExecution now now2 sch
           = Some (if c \<le> now then c + msPerDay - now else c - now)"
  using st c by (simp add: calculateNextExecution_def Let_def setUTCDate_next_day)

text \<open>
  Where the normalisation \<^verbatim>\<open>(hours - timezoneOffsetHours + 24) % 24\<close> does its work, that
  is for every offset up to \<open>localHour + 24\<close> (every offset between \<open>-12\<close> and \<open>+14\<close>
  among them), a daily schedule with an hour in \<open>0..23\<close> and a minute in \<open>0..59\<close> gets,
  at every instant \<open>now\<close>, a delay that is strictly positive and at most 24 hours.  The
  second clock reading \<open>now2\<close> of the source may lag the first by up to a minute.
\<close>

lemma daily_delay_bounds:
  assumes st: "stype sch = ''daily''"
    and h: "0 \<le> fst (time sch)" "fst (time sch) < 24"
    and m: "0 \<le> snd (time sch)" "snd (time sch) < 60"
    and off: "timezoneOffset sch \<le> of_int (fst (time sch)) + 24"
    and clk: "now \<le> now2" "now2 \<le> now + 60000"
  shows "\<exists>d. calculateNextExecution now now2 sch = Some d \<and> 0 < d \<and> d \<le> 86400000"
proof -
  define a where "a = of_int (fst (time sch)) - timezoneOffset sch + 24"
  define T where "T = MakeTime (js_rem a 24) (of_int (snd (time sch))) 0 0"
  define c where "c = setUTCHours now2 (js_rem a 24) (of_int (snd (time sch))) 0 0"
  have a0: "0 \<le> a" using off by (simp add: a_def)
  from MakeTime_range [OF a0 m] have T: "0 \<le> T" "T \<le> 86340000" by (simp_all add: T_def)
  have cT: "c = Day now2 * msPerDay + T"
    by (simp add: c_def T_def setUTCHours_def MakeDate_def)
  have n2: "now2 = Day now2 * msPerDay + now2 mod msPerDay"
    by (simp add: Day_def)
  have r2: "0 \<le> now2 mod msPerDay" "now2 mod msPerDay < 86400000"
    by (simp_all add: msPerDay_def)
  have res: "calculateNextExecution now now2 sch
               = Some (if c \<le> now then c + msPerDay - now else c - now)"
    by (rule daily_delay [OF st]) (simp add: c_def a_def)
  show ?thesis
  proof (cases "c \<le> now")
    case True
    have "0 < c + msPerDay - now" using cT T n2 r2 clk by (simp add: msPerDay_def)
    moreover have "c + msPerDay - now \<le> 86400000" using True by (simp add: msPerDay_def)
    ultimately show ?thesis using res True by simp
  next
    case False
    have "c - now \<le> 86400000" using cT T n2 r2 clk by (simp add: msPerDay_def)
    then show ?thesis using res False by simp
  qed
qed

lemma daily_delay_bounds_witness:
  "stype ex_dailySchedule = ''daily''
   \<and> 0 \<le> fst (time ex_dailySchedule) \<and> fst (time ex_dailySchedule) < 24
   \<and> 0 \<le> snd (time ex_dailySchedule) \<and> snd (time ex_dailySchedule) < 60
   \<and> timezoneOffset ex_dailySchedule \<le> of_int (fst (time ex_dailySchedule)) + 24
   \<and> (\<exists>d. calculateNextExecution ex_now (ex_now + 1) ex_dailySchedule = Some d
          \<and> 0 < d \<and> d \<le> 86400000)"
  using daily_delay_bounds [of ex_dailySchedule ex_now "ex_now + 1"]
  by (simp add: ex_dailySchedule_def)

text \<open>With an offset beyond \<open>localHour + 24\<close> the remainder of \<^verbatim>\<open>%\<close> is negative and the
  candidate falls on the previous day: \<open>00:00\<close> at offset \<open>+30\<close>, asked at 19:00 UTC.\<close>

lemma daily_delay_negative_far_offset:
  "calculateNextExecution ex_evening ex_evening ex_farSchedule = Some (- 3600000)"
  by (simp add: calculateNextExecution_def Let_def ex_evening_def ex_farSchedule_def date_defs
      ceiling_def)

lemma create_far:
  "scheduleMessageCommand ex_fsOk 17 1706695200001 ex_evening ex_evening ex_farRequest ex_started
     = (ScheduleCreated,
        ex_started\<lparr>
          store := ex_emptyStore\<lparr>scheduledMessages := [(''100'', [ex_far])]\<rparr>,
          storageFile :=
            Some (ex_emptyStore\<lparr>scheduledMessages := [(''100'', [ex_far])]\<rparr>, 1706695200003)\<rparr>)"
  using daily_delay_negative_far_offset
  by (simp add: cmd_defs store_defs sched_defs Let_def ex_defs)

text \<open>
  \<^bold>\<open>C7.\<close>  The code at the failing input.  \<^verbatim>\<open>/schedule-message\<close> accepts a daily schedule
  at \<open>00:00\<close> with the timezone offset \<open>+30\<close> (the option has no bounds) and answers that
  the entry was created; the entry is stored with that offset.  At 19:00 UTC the delay
  computed for it is minus one hour, not a positive duration of at most 24 hours, and
  \<open>scheduleMessage\<close> therefore arms no timer for the entry.
\<close>

theorem far_offset_daily_delay_negative:
  "fst (scheduleMessageCommand ex_fsOk 17 1706695200001 ex_evening ex_evening ex_farRequest
          ex_started) = ScheduleCreated
   \<and> getGuildScheduledMessages ''100''
        (snd (scheduleMessageCommand ex_fsOk 17 1706695200001 ex_evening ex_evening
                ex_farRequest ex_started)) = [ex_far]
   \<and> stype (schedule ex_far) = ''daily'' \<and> time (schedule ex_far) = (0, 0)
   \<and> timezoneOffset (schedule ex_far) = 30
   \<and> calculateNextExecution ex_evening ex_evening (schedule ex_far) = Some (- 3600000)
   \<and> timeouts
        (snd (scheduleMessageCommand ex_fsOk 17 1706695200001 ex_evening ex_evening
                ex_farRequest ex_started)) = []"
proof -
  have calc: "calculateNextExecution ex_evening ex_evening (schedule ex_far) = Some (- 3600000)"
    using daily_delay_negative_far_offset by (simp add: ex_far_def)
  have sch: "stype (schedule ex_far) = ''daily''" "time (schedule ex_far) = (0, 0)"
    "timezoneOffset (schedule ex_far) = 30"
    by (simp_all add: ex_far_def ex_farSchedule_def)
  have listed: "getGuildScheduledMessages ''100''
        (snd (scheduleMessageCommand ex_fsOk 17 1706695200001 ex_evening ex_evening
                ex_farRequest ex_started)) = [ex_far]"
    unfolding create_far by (simp add: store_defs ex_started_def ex_emptyStore_def)
  have unarmed: "timeouts
        (snd (scheduleMessageCommand ex_fsOk 17 1706695200001 ex_evening ex_evening
                ex_farRequest ex_started)) = []"
    unfolding create_far by (simp add: ex_started_def)
  have reply: "fst (scheduleMessageCommand ex_fsOk 17 1706695200001 ex_evening ex_evening
          ex_farRequest ex_started) = ScheduleCreated"
    unfolding create_far by simp
  from reply listed sch calc unarmed show ?thesis by blast
qed

lemma js_rem_of_int: "js_rem (of_int n) 24 = of_int (n - 24 * js_trunc (of_int n / 24))"
  by (simp add: js_rem_def)

lemma time_of_day_mod:
  assumes "0 \<le> m" "m < 60"
  shows "(D * msPerDay + ((n - 24 * q) * msPerHour + m * msPerMinute)) mod msPerDay
           = (n mod 24) * msPerHour + m * msPerMinute"
proof -
  define r where "r = n mod 24"
  define k where "k = n div 24"
  have r: "0 \<le> r" "r < 24" by (simp_all add: r_def)
  have n: "n = 24 * k + r" by (simp add: r_def k_def)
  have "n * 3600000 = r * 3600000 + k * 86400000" by (subst n) simp
  then have split: "D * msPerDay + ((n - 24 * q) * msPerHour + m * msPerMinute)
      = (r * msPerHour + m * msPerMinute) + (D + k - q) * msPerDay"
    by (simp add: msPerDay_def msPerHour_def msPerMinute_def algebra_simps)
  have rng: "0 \<le> r * msPerHour + m * msPerMinute" "r * msPerHour + m * msPerMinute < msPerDay"
    using r assms by (simp_all add: msPerDay_def msPerHour_def msPerMinute_def)
  show ?thesis unfolding split using rng by (simp add: r_def)
qed

lemma setUTCHours_mod:
  assumes "0 \<le> m" "m < 60"
  shows "setUTCHours t (js_rem (of_int n) 24) (of_int m) 0 0 mod msPerDay
           = (n mod 24) * msPerHour + m * msPerMinute"
proof -
  have "js_trunc (js_rem (of_int n) 24) = n - 24 * js_trunc (of_int n / 24)"
    by (simp only: js_rem_of_int js_trunc_of_int)
  then have "setUTCHours t (js_rem (of_int n) 24) (of_int m) 0 0
      = Day t * msPerDay + ((n - 24 * js_trunc (of_int n / 24)) * msPerHour + m * msPerMinute)"
    by (simp add: setUTCHours_def MakeDate_def MakeTime_def js_trunc_of_int js_trunc_zero)
  then show ?thesis
    using time_of_day_mod [OF assms, of "Day t" n "js_trunc (of_int n / 24)"] by simp
qed

lemma setUTCDate_mod: "setUTCDate t d mod msPerDay = t mod msPerDay"
  by (simp add: setUTCDate_def MakeDate_def TimeWithinDay_def)

lemma setUTCMonth_mod: "setUTCMonth t d mod msPerDay = t mod msPerDay"
  by (simp add: setUTCMonth_def MakeDate_def TimeWithinDay_def)

lemma spec_referenceTimeOfDay_int:
  "spec_referenceTimeOfDay (of_int h) (of_int m) (of_int k)
     = of_int (((h - k + 24) mod 24) * msPerHour + m * msPerMinute)"
proof -
  have "real_of_int h - real_of_int k + 24 = real_of_int (h - k + 24)" by simp
  moreover have "\<lfloor>real_of_int (h - k + 24) / 24\<rfloor> = (h - k + 24) div 24"
    using floor_divide_of_int_eq [of "h - k + 24" 24, where ?'a = real] by simp
  moreover have "real_of_int (h - k + 24) - 24 * real_of_int ((h - k + 24) div 24)
                   = real_of_int ((h - k + 24) mod 24)"
    by (simp add: minus_mult_div_eq_mod [symmetric] del: minus_mult_div_eq_mod)
  ultimately show ?thesis
    by (simp add: spec_referenceTimeOfDay_def spec_referenceHour_def Let_def msPerHour_def
        msPerMinute_def)
qed

text \<open>With an integer offset, whatever delay the calculation returns leads to an instant
  whose UTC time of day is the specification's reference time.\<close>

lemma integer_offset_time_of_day:
  assumes off: "timezoneOffset sch = of_int k"
    and m: "0 \<le> snd (time sch)" "snd (time sch) < 60"
    and res: "calculateNextExecution now now2 sch = Some d"
  shows "of_int ((now + d) mod msPerDay)
           = spec_referenceTimeOfDay (of_int (fst (time sch))) (of_int (snd (time sch)))
               (timezoneOffset sch)"
proof -
  define n where "n = fst (time sch) - k + 24"
  define tod where "tod = (n mod 24) * msPerHour + snd (time sch) * msPerMinute"
  have u: "js_rem (of_int (fst (time sch)) - timezoneOffset sch + 24) 24 = js_rem (of_int n) 24"
    by (simp add: off n_def)
  note H = setUTCHours_mod [OF m, of _ n, folded tod_def]
  have "(now + d) mod msPerDay = tod"
  proof -
    consider (once) "stype sch = ''once''" | (daily) "stype sch = ''daily''"
      | (weekly) "stype sch = ''weekly''" | (monthly) "stype sch = ''monthly''"
      | (other) "stype sch \<noteq> ''once''" "stype sch \<noteq> ''daily''"
          "stype sch \<noteq> ''weekly''" "stype sch \<noteq> ''monthly''"
      by blast
    then show ?thesis
    proof cases
      case once
      with res show ?thesis
        by (auto simp: calculateNextExecution_def Let_def u H split: if_splits)
    next
      case daily
      with res show ?thesis
        by (auto simp: calculateNextExecution_def Let_def u H setUTCDate_mod split: if_splits)
    next
      case weekly
      with res show ?thesis
        by (auto simp: calculateNextExecution_def Let_def u H split: if_splits option.splits)
    next
      case monthly
      with res show ?thesis
        by (auto simp: calculateNextExecution_def Let_def u H setUTCDate_mod setUTCMonth_mod
            split: if_splits option.splits)
    next
      case other
      with res show ?thesis
        by (simp add: calculateNextExecution_def Let_def)
    qed
  qed
  then show ?thesis
    using spec_referenceTimeOfDay_int [of "fst (time sch)" "snd (time sch)" k]
    by (simp add: off tod_def n_def)
qed

section \<open>What the store and the scheduler leave alone\<close>

lemma store_saveToFile: "store (saveToFile env s) = store s"
  by (simp add: saveToFile_def saveFailed_def Let_def split: option.splits)

lemma store_clearTimeout: "store (clearTimeout h s) = store s"
  by (simp add: clearTimeout_def)

lemma store_scheduleMessage: "store (scheduleMessage now now2 m s) = store s"
  by (simp add: scheduleMessage_def setTimeout_def clearTimeout_def Let_def
      split: option.splits)

lemma findIndexFrom_bound:
  "0 \<le> findIndexFrom i P xs \<Longrightarrow>
     int i \<le> findIndexFrom i P xs \<and> findIndexFrom i P xs < int i + int (length xs)"
proof (induction xs arbitrary: i)
  case Nil
  then show ?case by simp
next
  case (Cons x xs)
  show ?case
  proof (cases "P x")
    case True
    then show ?thesis by simp
  next
    case False
    with Cons.prems have "0 \<le> findIndexFrom (Suc i) P xs" by simp
    from Cons.IH [OF this] False show ?thesis by simp
  qed
qed

lemma saved_entry_listed:
  "message \<in> set (getGuildScheduledMessages gid (saveScheduledMessage env gid message s))"
proof -
  define current where "current = getOrEmpty (scheduledMessages (store s)) gid"
  define index where "index = findIndex (\<lambda>m. msgId m = msgId message) current"
  define current' where
    "current' = (if index \<ge> 0 then current[nat index := message] else current @ [message])"
  have "message \<in> set current'"
  proof (cases "index \<ge> 0")
    case True
    with findIndexFrom_bound [of 0 "\<lambda>m. msgId m = msgId message" current]
    have "nat index < length current" by (simp add: index_def findIndex_def)
    then show ?thesis using True by (simp add: current'_def set_update_memI)
  next
    case False
    then show ?thesis by (simp add: current'_def)
  qed
  moreover have "getGuildScheduledMessages gid (saveScheduledMessage env gid message s) = current'"
    by (simp add: getGuildScheduledMessages_def saveScheduledMessage_def Let_def
        store_saveToFile getOrEmpty_def update_conv' current'_def index_def current_def)
  ultimately show ?thesis by simp
qed

lemma created_entry_listed:
  assumes "scheduleMessageCommand env idClock createdClock now now2 req s = (ScheduleCreated, s')"
  shows "\<exists>m \<in> set (getGuildScheduledMessages (reqGuildId req) s').
           msgId m = reqGuildId req @ ''-'' @ decimal (nat idClock)
           \<and> timezoneOffset (schedule m) \<in> \<int>"
proof -
  define messageConfig where "messageConfig =
      \<lparr>msgId = reqGuildId req @ ''-'' @ decimal (nat idClock), name = reqName req,
       guildId = reqGuildId req, channelId = reqChannelId req, content = reqMessage req,
       schedule =
         \<lparr>stype = reqType req, time = splitTime (reqTime req),
          timezoneOffset = of_int (case reqTimezoneOffset req of None \<Rightarrow> 0 | Some z \<Rightarrow> z),
          dayOfWeek = (if reqType req = ''weekly'' then reqDayOfWeek req else None),
          dayOfMonth = (if reqType req = ''weekly'' then None
                        else if reqType req = ''monthly'' then reqDayOfMonth req else None)\<rparr>,
       recurring = (reqType req \<noteq> ''once''), enabled = True, createdBy = reqUserId req,
       createdAt = createdClock\<rparr>"
  define s1 where "s1 = saveScheduledMessage env (reqGuildId req) messageConfig s"
  from assms have "s' = (if listening s1 then scheduleMessage now now2 messageConfig s1 else s1)"
    by (simp add: scheduleMessageCommand_def Let_def s1_def messageConfig_def
        split: if_splits)
  then have "store s' = store s1" by (simp add: store_scheduleMessage)
  then have "getGuildScheduledMessages (reqGuildId req) s'
               = getGuildScheduledMessages (reqGuildId req) s1"
    by (simp add: getGuildScheduledMessages_def)
  moreover have "messageConfig \<in> set (getGuildScheduledMessages (reqGuildId req) s1)"
    unfolding s1_def by (rule saved_entry_listed)
  moreover have "msgId messageConfig = reqGuildId req @ ''-'' @ decimal (nat idClock)"
    and "timezoneOffset (schedule messageConfig) \<in> \<int>"
    by (simp_all add: messageConfig_def)
  ultimately show ?thesis by (intro bexI [of _ messageConfig]) simp_all
qed

text \<open>
  Whole-hour offsets.  The schedule that \<^verbatim>\<open>/schedule-message\<close> stores has an integer
  offset, because the command reads the option with \<^verbatim>\<open>getInteger\<close>.  For every schedule
  with an integer offset and a minute in \<open>0..59\<close>, whenever the occurrence calculation
  returns a delay, the fire instant's time of day in the reference timeline is
  \<open>((localHour - tzOffsetHours + 24) mod 24)\<close> hours plus the unchanged minutes.
\<close>

lemma integer_offset_reference_time:
  "(scheduleMessageCommand env idClock createdClock now now2 req s = (ScheduleCreated, s') \<longrightarrow>
      (\<exists>m \<in> set (getGuildScheduledMessages (reqGuildId req) s').
          msgId m = reqGuildId req @ ''-'' @ decimal (nat idClock)
          \<and> timezoneOffset (schedule m) \<in> \<int>))
   \<and> (timezoneOffset sch \<in> \<int> \<and> 0 \<le> snd (time sch) \<and> snd (time sch) < 60
        \<and> calculateNextExecution t t2 sch = Some d \<longrightarrow>
      of_int ((t + d) mod msPerDay)
        = spec_referenceTimeOfDay (of_int (fst (time sch))) (of_int (snd (time sch)))
            (timezoneOffset sch))"
proof (intro conjI impI)
  assume "scheduleMessageCommand env idClock createdClock now now2 req s = (ScheduleCreated, s')"
  then show "\<exists>m \<in> set (getGuildScheduledMessages (reqGuildId req) s').
          msgId m = reqGuildId req @ ''-'' @ decimal (nat idClock)
          \<and> timezoneOffset (schedule m) \<in> \<int>"
    by (rule created_entry_listed)
next
  assume a: "timezoneOffset sch \<in> \<int> \<and> 0 \<le> snd (time sch) \<and> snd (time sch) < 60
        \<and> calculateNextExecution t t2 sch = Some d"
  then obtain k where "timezoneOffset sch = of_int k" by (auto elim: Ints_cases)
  with a show "of_int ((t + d) mod msPerDay)
        = spec_referenceTimeOfDay (of_int (fst (time sch))) (of_int (snd (time sch)))
            (timezoneOffset sch)"
    using integer_offset_time_of_day [of sch k t t2 d] by simp
qed

lemma integer_offset_reference_time_witness:
  "scheduleMessageCommand ex_fsOk 17 1706695200001 ex_now ex_now ex_dailyRequest ex_started
     = (ScheduleCreated,
        ex_dailyArmed\<lparr>storageFile := Some (store ex_dailyArmed, 1706695200003)\<rparr>)
   \<and> (\<exists>m \<in> set (getGuildScheduledMessages ''100''
                  (ex_dailyArmed\<lparr>storageFile := Some (store ex_dailyArmed, 1706695200003)\<rparr>)).
          msgId m = ''100-17'' \<and> timezoneOffset (schedule m) \<in> \<int>)
   \<and> calculateNextExecution ex_now ex_now ex_dailySchedule = Some 14399998
   \<and> real_of_int ((ex_now + 14399998) mod msPerDay) = spec_referenceTimeOfDay 9 0 (- 5)
   \<and> spec_referenceTimeOfDay 9 0 (- 5) = 50400000"
proof -
  have off: "timezoneOffset ex_dailySchedule \<in> \<int>" by (simp add: ex_dailySchedule_def)
  have sp: "spec_referenceTimeOfDay 9 0 (- 5) = 50400000"
    by (simp add: spec_referenceTimeOfDay_def spec_referenceHour_def)
  show ?thesis
    using integer_offset_reference_time [of ex_fsOk 17 1706695200001 ex_now ex_now
        ex_dailyRequest ex_started
        "ex_dailyArmed\<lparr>storageFile := Some (store ex_dailyArmed, 1706695200003)\<rparr>"
        ex_dailySchedule ex_now ex_now 14399998]
      create_daily daily_calc off sp
    by (simp add: ex_dailySchedule_def ex_dailyRequest_def digitChar_def decimal.simps)
qed

text \<open>
  \<^bold>\<open>C6.\<close>  The code at the failing input: the half-hour offset \<open>+5.5\<close> that the comment in
  \<^verbatim>\<open>calculateNextExecution\<close> names for IST.  On 31 January 2024 at 10:00 UTC a daily
  14:30 schedule with that offset is due 22.5 hours later, at 08:30 UTC: \<^verbatim>\<open>setUTCHours\<close>
  drops the fraction of \<open>utcHours = 8.5\<close>.  The reference time the conversion formula
  gives, with the minutes kept, is 09:00 UTC, half an hour later.
\<close>

theorem half_hour_offset_truncated:
  "calculateNextExecution 1706695200000 1706695200000
      \<lparr>stype = ''daily'', time = (14, 30), timezoneOffset = 5.5, dayOfWeek = None,
       dayOfMonth = None\<rparr> = Some 81000000
   \<and> real_of_int ((1706695200000 + 81000000) mod msPerDay) = 30600000
   \<and> spec_referenceTimeOfDay 14 30 5.5 = 32400000"
  by (simp add: calculateNextExecution_def Let_def date_defs spec_referenceTimeOfDay_def
      spec_referenceHour_def)

section \<open>Removing an entry that is not there\<close>

text \<open>
  \<^bold>\<open>C9.\<close>  For every guild and every entry id that none of the guild's stored entries
  carries, \<open>removeScheduledMessage\<close> returns \<^verbatim>\<open>false\<close> and leaves the whole state as it
  was: the guild's entry list, the store, the persisted file, the timers.
\<close>

theorem remove_absent_id_noop:
  assumes "messageId \<notin> msgId ` set (getGuildScheduledMessages gid s)"
  shows "removeScheduledMessage env gid messageId s = (False, s)"
proof -
  have "filter (\<lambda>m. msgId m \<noteq> messageId) (getOrEmpty (scheduledMessages (store s)) gid)
          = getOrEmpty (scheduledMessages (store s)) gid"
    using assms by (auto simp: getGuildScheduledMessages_def filter_id_conv)
  then show ?thesis
    by (simp add: removeScheduledMessage_def Let_def)
qed

theorem remove_absent_id_noop_witness:
  "''100-99'' \<notin> msgId ` set (getGuildScheduledMessages ''100'' ex_dailyArmed)
   \<and> removeScheduledMessage ex_fsOk ''100'' ''100-99'' ex_dailyArmed = (False, ex_dailyArmed)"
proof -
  have h: "''100-99'' \<notin> msgId ` set (getGuildScheduledMessages ''100'' ex_dailyArmed)"
    by (simp add: store_defs ex_defs)
  from remove_absent_id_noop [OF h] h show ?thesis by simp
qed

text \<open>The command looks the entry up by name; an unknown name is answered without
  touching anything.\<close>

lemma remove_command_unknown_name:
  assumes "find (\<lambda>msg. name msg = messageName) (getGuildScheduledMessages gid s) = None"
  shows "removeScheduledCommand env gid messageName s = (NoSuchScheduledMessage, s)"
  using assms
  by (simp add: removeScheduledCommand_def getGuildScheduledMessages_def
      getScheduledMessages_def Let_def)

section \<open>Reset of one guild and the other guilds\<close>

lemma store_cancelListed: "store (fst (cancelListed m acc)) = store (fst acc)"
  by (simp add: cancelListed_def clearTimeout_def Let_def split: option.splits)

lemma store_fold_cancelListed: "store (fst (fold cancelListed ms acc)) = store (fst acc)"
  by (induction ms arbitrary: acc) (simp_all add: store_cancelListed)

lemma store_resetNotify: "store (resetNotify gid s) = store s"
  by (simp add: resetNotify_def emitGuildConfigReset_def onGuildConfigReset_def Let_def
      store_fold_cancelListed)

lemma startsWith_dash_same:
  assumes "CHR ''-'' \<notin> set T" "CHR ''-'' \<notin> set U" "startsWith (U @ ''-'' @ r) (T @ ''-'')"
  shows "T = U"
  using assms
proof (induction T arbitrary: U)
  case Nil
  then show ?case by (cases U) (auto simp: startsWith_def)
next
  case (Cons a T)
  show ?case
  proof (cases U)
    case Nil
    with Cons.prems show ?thesis by (auto simp: startsWith_def)
  next
    case (Cons b U')
    with Cons.prems have "a = b" "startsWith (U' @ ''-'' @ r) (T @ ''-'')"
      by (auto simp: startsWith_def)
    moreover from Cons Cons.prems have "CHR ''-'' \<notin> set T" "CHR ''-'' \<notin> set U'" by auto
    ultimately show ?thesis using Cons.IH Cons by auto
  qed
qed

lemma startsWith_decompose:
  assumes "startsWith k (U @ ''-'')"
  shows "k = U @ ''-'' @ drop (length U + 1) k"
proof -
  from assms have "take (length U + 1) k = U @ ''-''" by (simp add: startsWith_def)
  then have "k = (U @ ''-'') @ drop (length U + 1) k"
    by (metis append_take_drop_id)
  then show ?thesis by simp
qed

lemma startsWith_both:
  assumes "CHR ''-'' \<notin> set T" "CHR ''-'' \<notin> set U"
    and "startsWith k (T @ ''-'')" "startsWith k (U @ ''-'')"
  shows "T = U"
proof -
  from startsWith_decompose [OF assms(4)] obtain r where "k = U @ ''-'' @ r" by blast
  with assms(1,2,3) show ?thesis using startsWith_dash_same by blast
qed

lemma map_of_filter_key:
  "map_of (filter (\<lambda>(k, v). P k) xs) k' = (if P k' then map_of xs k' else None)"
  by (induction xs) auto

lemma filter_filter_imp:
  "(\<And>x. x \<in> set xs \<Longrightarrow> P x \<Longrightarrow> Q x) \<Longrightarrow> filter P (filter Q xs) = filter P xs"
  by (induction xs) auto

lemma configOfGuild_unique: "configOfGuild U c \<Longrightarrow> T \<noteq> U \<Longrightarrow> \<not> configOfGuild T c"
  by (auto simp: configOfGuild_def split: list.splits)

lemma store_resetGuildConfig:
  "store (snd (resetGuildConfig env n T s)) =
     (store s)\<lparr>welcomeConfigs := AList.delete T (welcomeConfigs (store s)),
       leaveConfigs := AList.delete T (leaveConfigs (store s)),
       levelingConfigs := AList.delete T (levelingConfigs (store s)),
       scheduledMessages := AList.delete T (scheduledMessages (store s)),
       ticketConfigs := AList.delete T (ticketConfigs (store s)),
       tickets := AList.delete T (tickets (store s)),
       reactionRoles :=
         filter (\<lambda>(messageId, config). \<not> configOfGuild T config) (reactionRoles (store s)),
       buttonRoles :=
         filter (\<lambda>(messageId, config). \<not> configOfGuild T config) (buttonRoles (store s)),
       userLevels :=
         filter (\<lambda>(key, l). \<not> startsWith key (T @ ''-'')) (userLevels (store s))\<rparr>"
  by (simp add: resetGuildConfig_def resetClear_def Let_def store_saveToFile store_resetNotify)

text \<open>
  \<^bold>\<open>C10.\<close>  For two distinct guilds \<open>T\<close> and \<open>U\<close> whose identifiers contain no \<open>-\<close>,
  resetting \<open>T\<close> leaves what the store holds for \<open>U\<close> as it was: the scheduled-message
  list, the welcome, leave, leveling and ticket configurations and the tickets under key
  \<open>U\<close>, the reaction-role and button-role configurations of \<open>U\<close>, and every user-level
  record of \<open>U\<close> (by key and as the list of keys that start with \<open>U-\<close>).  Whatever is
  removed belongs to \<open>T\<close>: it sits under key \<open>T\<close>, is a role configuration of guild
  \<open>T\<close>, or is a user level whose key starts with \<open>T-\<close>.
\<close>

theorem reset_leaves_other_guild:
  assumes TU: "T \<noteq> U" and dT: "CHR ''-'' \<notin> set T" and dU: "CHR ''-'' \<notin> set U"
    and st': "st' = store (snd (resetGuildConfig env n T s))"
  shows "map_of (scheduledMessages st') U = map_of (scheduledMessages (store s)) U
    \<and> map_of (welcomeConfigs st') U = map_of (welcomeConfigs (store s)) U
    \<and> map_of (leaveConfigs st') U = map_of (leaveConfigs (store s)) U
    \<and> map_of (levelingConfigs st') U = map_of (levelingConfigs (store s)) U
    \<and> map_of (ticketConfigs st') U = map_of (ticketConfigs (store s)) U
    \<and> map_of (tickets st') U = map_of (tickets (store s)) U
    \<and> filter (\<lambda>(messageId, config). configOfGuild U config) (reactionRoles st')
        = filter (\<lambda>(messageId, config). configOfGuild U config) (reactionRoles (store s))
    \<and> filter (\<lambda>(messageId, config). configOfGuild U config) (buttonRoles st')
        = filter (\<lambda>(messageId, config). configOfGuild U config) (buttonRoles (store s))
    \<and> (\<forall>userId. map_of (userLevels st') (U @ ''-'' @ userId)
                   = map_of (userLevels (store s)) (U @ ''-'' @ userId))
    \<and> filter (\<lambda>(key, l). startsWith key (U @ ''-'')) (userLevels st')
        = filter (\<lambda>(key, l). startsWith key (U @ ''-'')) (userLevels (store s))
    \<and> (\<forall>k. k \<noteq> T \<longrightarrow>
          map_of (scheduledMessages st') k = map_of (scheduledMessages (store s)) k
          \<and> map_of (welcomeConfigs st') k = map_of (welcomeConfigs (store s)) k
          \<and> map_of (leaveConfigs st') k = map_of (leaveConfigs (store s)) k
          \<and> map_of (levelingConfigs st') k = map_of (levelingConfigs (store s)) k
          \<and> map_of (ticketConfigs st') k = map_of (ticketConfigs (store s)) k
          \<and> map_of (tickets st') k = map_of (tickets (store s)) k)
    \<and> (\<forall>e \<in> set (reactionRoles (store s)).
          e \<in> set (reactionRoles st') \<or> configOfGuild T (snd e))
    \<and> (\<forall>e \<in> set (buttonRoles (store s)).
          e \<in> set (buttonRoles st') \<or> configOfGuild T (snd e))
    \<and> (\<forall>e \<in> set (userLevels (store s)).
          e \<in> set (userLevels st') \<or> startsWith (fst e) (T @ ''-''))"
proof -
  note st = st' [unfolded store_resetGuildConfig]
  have UT: "U \<noteq> T" using TU by simp
  have keyed: "\<And>k. k \<noteq> T \<Longrightarrow>
          map_of (scheduledMessages st') k = map_of (scheduledMessages (store s)) k
          \<and> map_of (welcomeConfigs st') k = map_of (welcomeConfigs (store s)) k
          \<and> map_of (leaveConfigs st') k = map_of (leaveConfigs (store s)) k
          \<and> map_of (levelingConfigs st') k = map_of (levelingConfigs (store s)) k
          \<and> map_of (ticketConfigs st') k = map_of (ticketConfigs (store s)) k
          \<and> map_of (tickets st') k = map_of (tickets (store s)) k"
    by (simp add: st)
  have rrs: "reactionRoles st' =
      filter (\<lambda>(messageId, config). \<not> configOfGuild T config) (reactionRoles (store s))"
    and brs: "buttonRoles st' =
      filter (\<lambda>(messageId, config). \<not> configOfGuild T config) (buttonRoles (store s))"
    and uls: "userLevels st' =
      filter (\<lambda>(key, l). \<not> startsWith key (T @ ''-'')) (userLevels (store s))"
    by (simp_all add: st)
  have rr: "filter (\<lambda>(messageId, config). configOfGuild U config) (reactionRoles st')
        = filter (\<lambda>(messageId, config). configOfGuild U config) (reactionRoles (store s))"
    unfolding rrs by (rule filter_filter_imp) (use TU in \<open>auto dest: configOfGuild_unique\<close>)
  have br: "filter (\<lambda>(messageId, config). configOfGuild U config) (buttonRoles st')
        = filter (\<lambda>(messageId, config). configOfGuild U config) (buttonRoles (store s))"
    unfolding brs by (rule filter_filter_imp) (use TU in \<open>auto dest: configOfGuild_unique\<close>)
  have nostart: "\<And>userId. \<not> startsWith (U @ ''-'' @ userId) (T @ ''-'')"
    using startsWith_dash_same [OF dT dU] TU by blast
  have ul: "\<And>userId. map_of (userLevels st') (U @ ''-'' @ userId)
                   = map_of (userLevels (store s)) (U @ ''-'' @ userId)"
    using nostart by (simp add: st map_of_filter_key)
  have ulf: "filter (\<lambda>(key, l). startsWith key (U @ ''-'')) (userLevels st')
        = filter (\<lambda>(key, l). startsWith key (U @ ''-'')) (userLevels (store s))"
    unfolding uls by (rule filter_filter_imp) (use startsWith_both [OF dT dU] TU in auto)
  have only_rr: "\<forall>e \<in> set (reactionRoles (store s)).
          e \<in> set (reactionRoles st') \<or> configOfGuild T (snd e)"
    by (auto simp: st)
  have only_br: "\<forall>e \<in> set (buttonRoles (store s)).
          e \<in> set (buttonRoles st') \<or> configOfGuild T (snd e)"
    by (auto simp: st)
  have only_ul: "\<forall>e \<in> set (userLevels (store s)).
          e \<in> set (userLevels st') \<or> startsWith (fst e) (T @ ''-'')"
    by (auto simp: st)
  from keyed [OF UT] keyed rr br ul ulf only_rr only_br only_ul show ?thesis
    by (intro conjI allI impI) blast+
qed

theorem reset_leaves_other_guild_witness:
  "''100'' \<noteq> ''200'' \<and> CHR ''-'' \<notin> set ''100'' \<and> CHR ''-'' \<notin> set ''200''
   \<and> map_of (welcomeConfigs (store (snd (resetGuildConfig ex_fsOk 0 ''100'' ex_twoGuilds)))) ''200''
        = Some ''welcome-200''
   \<and> filter (\<lambda>(messageId, config). configOfGuild ''200'' config)
        (reactionRoles (store (snd (resetGuildConfig ex_fsOk 0 ''100'' ex_twoGuilds))))
        = [(''901'', [\<lparr>roleGuildId = ''200'', roleChannelId = ''202'', roleId = ''2''\<rparr>])]
   \<and> map_of (userLevels (store (snd (resetGuildConfig ex_fsOk 0 ''100'' ex_twoGuilds))))
        (''200'' @ ''-'' @ ''7'') = Some \<lparr>xp = 20, level = 0\<rparr>"
proof -
  have h: "''100'' \<noteq> ''200''" "CHR ''-'' \<notin> set ''100''" "CHR ''-'' \<notin> set ''200''"
    by simp_all
  from reset_leaves_other_guild [OF h refl, of ex_fsOk 0 ex_twoGuilds]
  have "map_of (welcomeConfigs (store (snd (resetGuildConfig ex_fsOk 0 ''100'' ex_twoGuilds))))
          ''200'' = map_of (welcomeConfigs (store ex_twoGuilds)) ''200''"
    and "filter (\<lambda>(messageId, config). configOfGuild ''200'' config)
          (reactionRoles (store (snd (resetGuildConfig ex_fsOk 0 ''100'' ex_twoGuilds))))
          = filter (\<lambda>(messageId, config). configOfGuild ''200'' config)
              (reactionRoles (store ex_twoGuilds))"
    and "map_of (userLevels (store (snd (resetGuildConfig ex_fsOk 0 ''100'' ex_twoGuilds))))
          (''200'' @ ''-'' @ ''7'') = map_of (userLevels (store ex_twoGuilds)) (''200'' @ ''-'' @ ''7'')"
    by blast+
  then show ?thesis
    by (simp add: ex_defs configOfGuild_def)
qed

section \<open>The timer registry\<close>

lemma timersFor_clear_tracked:
  assumes "tracked i s" "map_of (activeTimers s) i = Some h"
  shows "timersFor i (clearTimeout h s) = []"
  using assms
  by (auto simp: tracked_def timersFor_def clearTimeout_def list_all_iff filter_empty_conv)

lemma timersFor_untracked_none:
  assumes "tracked i s" "map_of (activeTimers s) i = None"
  shows "timersFor i s = []"
  using assms by (auto simp: tracked_def timersFor_def list_all_iff filter_empty_conv)

lemma timersFor_activeTimers_update [simp]:
  "timersFor i (s\<lparr>activeTimers := a\<rparr>) = timersFor i s"
  by (simp add: timersFor_def)

lemma cancelScheduledMessage_clears:
  assumes "tracked i s"
  shows "timersFor i (snd (cancelScheduledMessage i s)) = []"
proof (cases "map_of (activeTimers s) i")
  case None
  with assms show ?thesis
    by (simp add: cancelScheduledMessage_def timersFor_untracked_none)
next
  case (Some h)
  with assms show ?thesis
    by (simp add: cancelScheduledMessage_def timersFor_clear_tracked)
qed

lemma cancelListed_clears:
  assumes "tracked (msgId m) (fst acc)"
  shows "timersFor (msgId m) (fst (cancelListed m acc)) = []"
proof (cases "map_of (activeTimers (fst acc)) (msgId m)")
  case None
  with assms show ?thesis
    by (simp add: cancelListed_def Let_def timersFor_untracked_none)
next
  case (Some h)
  with assms show ?thesis
    by (simp add: cancelListed_def Let_def timersFor_clear_tracked)
qed

lemma cancelListed_timeouts_subset:
  "set (timeouts (fst (cancelListed m acc))) \<subseteq> set (timeouts (fst acc))"
  by (auto simp: cancelListed_def Let_def clearTimeout_def split: option.splits)

lemma timersFor_empty_subset:
  assumes "timersFor i s = []" "set (timeouts s') \<subseteq> set (timeouts s)"
  shows "timersFor i s' = []"
  using assms by (auto simp: timersFor_def filter_empty_conv)

lemma fold_cancelListed_keeps_empty:
  "timersFor i (fst acc) = [] \<Longrightarrow> timersFor i (fst (fold cancelListed ms acc)) = []"
proof (induction ms arbitrary: acc)
  case Nil
  then show ?case by simp
next
  case (Cons m ms)
  from Cons.prems cancelListed_timeouts_subset [of m acc]
  have "timersFor i (fst (cancelListed m acc)) = []"
    by (rule timersFor_empty_subset)
  then show ?case using Cons.IH by simp
qed

lemma cancelListed_tracked:
  assumes "tracked j (fst acc)"
  shows "tracked j (fst (cancelListed m acc))"
proof (cases "map_of (activeTimers (fst acc)) (msgId m)")
  case None
  with assms show ?thesis by (simp add: cancelListed_def Let_def)
next
  case (Some h)
  show ?thesis
  proof (cases "j = msgId m")
    case True
    with assms Some show ?thesis
      by (auto simp: cancelListed_def Let_def tracked_def clearTimeout_def list_all_iff)
  next
    case False
    with assms Some show ?thesis
      by (auto simp: cancelListed_def Let_def tracked_def clearTimeout_def list_all_iff
          delete_conv')
  qed
qed

lemma fold_cancelListed_clears:
  assumes "tracked i (fst acc)" "i \<in> msgId ` set ms"
  shows "timersFor i (fst (fold cancelListed ms acc)) = []"
  using assms
proof (induction ms arbitrary: acc)
  case Nil
  then show ?case by simp
next
  case (Cons m ms)
  show ?case
  proof (cases "msgId m = i")
    case True
    with Cons.prems(1) have "timersFor i (fst (cancelListed m acc)) = []"
      using cancelListed_clears [of m acc] by simp
    then show ?thesis using fold_cancelListed_keeps_empty by simp
  next
    case False
    with Cons.prems(2) have "i \<in> msgId ` set ms" by auto
    moreover from Cons.prems(1) have "tracked i (fst (cancelListed m acc))"
      by (rule cancelListed_tracked)
    ultimately show ?thesis using Cons.IH by simp
  qed
qed

lemma resetNotify_clears:
  assumes "botClient s" "listening s" "tracked i s"
    and "i \<in> msgId ` set (getGuildScheduledMessages gid s)"
  shows "timersFor i (resetNotify gid s) = []"
  using assms fold_cancelListed_clears [of i "(s, 0)" "getGuildScheduledMessages gid s"]
  by (simp add: resetNotify_def emitGuildConfigReset_def onGuildConfigReset_def Let_def
      getGuildScheduledMessages_def getScheduledMessages_def)

lemma delivered_cancelListed: "delivered (fst (cancelListed m acc)) = delivered (fst acc)"
  by (simp add: cancelListed_def clearTimeout_def Let_def split: option.splits)

lemma delivered_fold_cancelListed:
  "delivered (fst (fold cancelListed ms acc)) = delivered (fst acc)"
  by (induction ms arbitrary: acc) (simp_all add: delivered_cancelListed)

lemma delivered_resetNotify: "delivered (resetNotify gid s) = delivered s"
  by (simp add: resetNotify_def emitGuildConfigReset_def onGuildConfigReset_def Let_def
      delivered_fold_cancelListed)

lemma delivered_cancelScheduledMessage:
  "delivered (snd (cancelScheduledMessage i s)) = delivered s"
  by (simp add: cancelScheduledMessage_def clearTimeout_def split: option.splits)

text \<open>With no timeout pending for an entry, no expiry of any timer hands that entry to
  \<^verbatim>\<open>channel.send\<close>.\<close>

lemma no_timer_no_delivery:
  assumes "timersFor i s = []"
  shows "count_list (delivered (timerExpires h chk s)) i = count_list (delivered s) i"
proof (cases "filter (\<lambda>e. fst e = h) (timeouts s)")
  case Nil
  then show ?thesis by (simp add: timerExpires_def)
next
  case (Cons e es)
  then have "e \<in> set (filter (\<lambda>e. fst e = h) (timeouts s))" by simp
  then have "e \<in> set (timeouts s)" by simp
  with assms have "msgId (fst (snd e)) \<noteq> i"
    by (auto simp: timersFor_def filter_empty_conv)
  then show ?thesis using Cons
    by (cases chk) (simp_all add: timerExpires_def executeBegin_def clearTimeout_def)
qed

text \<open>One arming, from a state in which the registry tracks the entry.\<close>

lemma arm_once:
  assumes tr: "tracked (msgId m) s" and fr: "handlesFresh s"
    and d: "calculateNextExecution now now2 (schedule m) = Some d" "0 < d"
  shows "timersFor (msgId m) (scheduleMessage now now2 m s)
           = [(nextTimer s, m, timeoutDelay d)]
    \<and> map_of (activeTimers (scheduleMessage now now2 m s)) (msgId m) = Some (nextTimer s)
    \<and> tracked (msgId m) (scheduleMessage now now2 m s)
    \<and> handlesFresh (scheduleMessage now now2 m s)
    \<and> nextTimer (scheduleMessage now now2 m s) = Suc (nextTimer s)"
proof -
  define s1 where "s1 = (case map_of (activeTimers s) (msgId m) of
                Some existingTimer \<Rightarrow> clearTimeout existingTimer s | None \<Rightarrow> s)"
  have none: "timersFor (msgId m) s1 = []"
    using tr by (auto simp: s1_def timersFor_clear_tracked timersFor_untracked_none
        split: option.splits)
  have sub: "set (timeouts s1) \<subseteq> set (timeouts s)" and nt: "nextTimer s1 = nextTimer s"
    and at: "activeTimers s1 = activeTimers s"
    by (auto simp: s1_def clearTimeout_def split: option.splits)
  have res: "scheduleMessage now now2 m s =
      s1\<lparr>timeouts := timeouts s1 @ [(nextTimer s, m, timeoutDelay d)],
         nextTimer := Suc (nextTimer s),
         activeTimers := AList.update (msgId m) (nextTimer s) (activeTimers s)\<rparr>"
    using d by (simp add: scheduleMessage_def Let_def setTimeout_def s1_def [symmetric] nt at)
  have old: "\<forall>e \<in> set (timeouts s1). msgId (fst (snd e)) \<noteq> msgId m \<and> fst e < nextTimer s"
    using none sub fr
    by (auto simp: timersFor_def filter_empty_conv handlesFresh_def list_all_iff)
  have "filter (\<lambda>e. msgId (fst (snd e)) = msgId m) (timeouts s1) = []"
    using none by (simp add: timersFor_def)
  then show ?thesis
    using old
    by (auto simp: res timersFor_def tracked_def handlesFresh_def list_all_iff update_conv'
        less_Suc_eq)
qed

text \<open>
  \<^bold>\<open>C8.\<close>  Arming twice in succession for the same entry, each time with a valid delay,
  from a state whose registry tracks the entry and whose handles are fresh, leaves exactly
  one pending timeout for the entry's id: the one of the second arming, which is also the
  one \<open>activeTimers\<close> records.  The timeout of the first arming has been cleared.  (The
  delay a timeout carries is the one the runtime keeps, \<open>timeoutDelay\<close> of the computed one.)
\<close>

theorem arm_twice_one_timer:
  assumes tr: "tracked (msgId m) s" and fr: "handlesFresh s"
    and d1: "calculateNextExecution n1 n1' (schedule m) = Some d1" "0 < d1"
    and d2: "calculateNextExecution n2 n2' (schedule m) = Some d2" "0 < d2"
  shows "timersFor (msgId m) (scheduleMessage n2 n2' m (scheduleMessage n1 n1' m s))
           = [(Suc (nextTimer s), m, timeoutDelay d2)]
    \<and> map_of (activeTimers (scheduleMessage n2 n2' m (scheduleMessage n1 n1' m s))) (msgId m)
           = Some (Suc (nextTimer s))
    \<and> (nextTimer s, m, timeoutDelay d1)
         \<notin> set (timeouts (scheduleMessage n2 n2' m (scheduleMessage n1 n1' m s)))"
proof -
  define s1 where "s1 = scheduleMessage n1 n1' m s"
  from arm_once [OF tr fr d1]
  have s1: "tracked (msgId m) s1" "handlesFresh s1" "nextTimer s1 = Suc (nextTimer s)"
    by (simp_all add: s1_def)
  from arm_once [OF s1(1,2) d2]
  have two: "timersFor (msgId m) (scheduleMessage n2 n2' m s1)
               = [(Suc (nextTimer s), m, timeoutDelay d2)]"
    and reg: "map_of (activeTimers (scheduleMessage n2 n2' m s1)) (msgId m)
                = Some (Suc (nextTimer s))"
    by (simp_all add: s1(3))
  have "(nextTimer s, m, timeoutDelay d1) \<notin> set (timeouts (scheduleMessage n2 n2' m s1))"
  proof
    assume "(nextTimer s, m, timeoutDelay d1) \<in> set (timeouts (scheduleMessage n2 n2' m s1))"
    then have "(nextTimer s, m, timeoutDelay d1)
                 \<in> set (timersFor (msgId m) (scheduleMessage n2 n2' m s1))"
      by (simp add: timersFor_def)
    with two show False by simp
  qed
  with two reg show ?thesis by (simp add: s1_def)
qed

lemma daily_calc_later:
  "calculateNextExecution (ex_now + 1000) (ex_now + 1000) ex_dailySchedule = Some 14398998"
  by (simp add: calculateNextExecution_def Let_def ex_defs date_defs)

theorem arm_twice_one_timer_witness:
  "tracked (msgId ex_daily) ex_dailyArmed \<and> handlesFresh ex_dailyArmed
   \<and> calculateNextExecution ex_now ex_now (schedule ex_daily) = Some 14399998
   \<and> calculateNextExecution (ex_now + 1000) (ex_now + 1000) (schedule ex_daily) = Some 14398998
   \<and> timersFor ''100-17''
        (scheduleMessage (ex_now + 1000) (ex_now + 1000) ex_daily
           (scheduleMessage ex_now ex_now ex_daily ex_dailyArmed))
       = [(2, ex_daily, 14398998)]"
proof -
  have tr: "tracked (msgId ex_daily) ex_dailyArmed"
    and fr: "handlesFresh ex_dailyArmed"
    by (simp_all add: tracked_def handlesFresh_def ex_defs)
  have d1: "calculateNextExecution ex_now ex_now (schedule ex_daily) = Some 14399998"
    using daily_calc by (simp add: ex_daily_def)
  have d2: "calculateNextExecution (ex_now + 1000) (ex_now + 1000) (schedule ex_daily)
              = Some 14398998"
    using daily_calc_later by (simp add: ex_daily_def)
  from arm_twice_one_timer [OF tr fr d1 _ d2] tr fr d1 d2 show ?thesis
    by (simp add: ex_daily_def ex_dailyArmed_def ex_started_def timeoutDelay_def)
qed

section \<open>Cancellation and reset\<close>

lemma filter_same_length:
  "length (filter P xs) = length xs \<Longrightarrow> filter P xs = xs"
proof (induction xs)
  case Nil
  then show ?case by simp
next
  case (Cons x xs)
  show ?case
  proof (cases "P x")
    case True
    with Cons show ?thesis by simp
  next
    case False
    with Cons.prems have "length (filter P xs) = Suc (length xs)" by simp
    moreover have "length (filter P xs) \<le> length xs" by (rule length_filter_le)
    ultimately have False by linarith
    then show ?thesis ..
  qed
qed

lemma removed_not_listed:
  "i \<notin> msgId ` set (getGuildScheduledMessages gid (snd (removeScheduledMessage env gid i s)))"
proof -
  define current where "current = getOrEmpty (scheduledMessages (store s)) gid"
  define filtered where "filtered = filter (\<lambda>m. msgId m \<noteq> i) current"
  have nf: "i \<notin> msgId ` set filtered" by (auto simp: filtered_def)
  show ?thesis
  proof (cases "length filtered < length current")
    case True
    then have "getGuildScheduledMessages gid (snd (removeScheduledMessage env gid i s)) = filtered"
      by (simp add: removeScheduledMessage_def Let_def getGuildScheduledMessages_def
          store_saveToFile getOrEmpty_def update_conv' current_def filtered_def)
    with nf show ?thesis by simp
  next
    case False
    moreover have "length filtered \<le> length current" by (simp add: filtered_def)
    ultimately have "length filtered = length current" by simp
    then have "filtered = current" unfolding filtered_def by (rule filter_same_length)
    moreover from False
    have "getGuildScheduledMessages gid (snd (removeScheduledMessage env gid i s)) = current"
      by (simp add: removeScheduledMessage_def Let_def getGuildScheduledMessages_def
          current_def filtered_def)
    ultimately show ?thesis using nf by simp
  qed
qed

lemma timers_removeScheduledMessage:
  "timeouts (snd (removeScheduledMessage env gid i s)) = timeouts s"
  "delivered (snd (removeScheduledMessage env gid i s)) = delivered s"
  by (simp_all add: removeScheduledMessage_def Let_def saveToFile_def saveFailed_def
      split: option.splits)

lemma store_cancelScheduledMessage: "store (snd (cancelScheduledMessage i s)) = store s"
  by (simp add: cancelScheduledMessage_def clearTimeout_def split: option.splits)

lemma remove_command_found:
  assumes "find (\<lambda>msg. name msg = messageName) (getGuildScheduledMessages gid s) = Some m"
  shows "snd (removeScheduledCommand env gid messageName s)
           = snd (removeScheduledMessage env gid (msgId m) (snd (cancelScheduledMessage (msgId m) s)))"
  using assms
  by (simp add: removeScheduledCommand_def getGuildScheduledMessages_def
      getScheduledMessages_def Let_def split_beta)

lemma remove_command_clears:
  assumes f: "find (\<lambda>msg. name msg = messageName) (getGuildScheduledMessages gid s) = Some m"
    and tr: "tracked (msgId m) s"
  shows "timersFor (msgId m) (snd (removeScheduledCommand env gid messageName s)) = []
    \<and> msgId m \<notin> msgId ` set (getGuildScheduledMessages gid
                                  (snd (removeScheduledCommand env gid messageName s)))
    \<and> delivered (snd (removeScheduledCommand env gid messageName s)) = delivered s"
  using cancelScheduledMessage_clears [OF tr]
    removed_not_listed [of "msgId m" gid env "snd (cancelScheduledMessage (msgId m) s)"]
  by (simp add: remove_command_found [OF f] timersFor_def timers_removeScheduledMessage
      delivered_cancelScheduledMessage)


lemma timers_saveToFile [simp]:
  "timeouts (saveToFile env s) = timeouts s" "activeTimers (saveToFile env s) = activeTimers s"
  by (simp_all add: saveToFile_def saveFailed_def Let_def split: option.splits)

lemma timers_resetClear:
  "timeouts (snd (resetClear env n gid s)) = timeouts s"
  "activeTimers (snd (resetClear env n gid s)) = activeTimers s"
  by (simp_all add: resetClear_def Let_def)

lemma timersFor_resetClear: "timersFor i (snd (resetClear env n gid s)) = timersFor i s"
  by (simp add: timersFor_def timers_resetClear)

lemma listed_after_resetClear: "getGuildScheduledMessages gid (snd (resetClear env n gid s)) = []"
  by (simp add: getGuildScheduledMessages_def resetClear_def Let_def store_saveToFile
      getOrEmpty_def delete_conv')

text \<open>
  The order of the reset.  When a bot client is registered with the store and the
  scheduler is listening, and the registry tracks the guild's stored entries, the reset
  first, in its notification, clears every timeout of every stored entry of the guild
  while the store is still as it was; its final piece deletes the guild's entries and
  touches no timer.  A reset during whose waits nothing else runs is the composition of
  the two, and after it the guild's entry list is empty and no timeout of any of those
  entries is pending.
\<close>

lemma reset_cancels_then_deletes:
  assumes bc: "botClient s" and li: "listening s"
    and tr: "\<forall>m \<in> set (getGuildScheduledMessages gid s). tracked (msgId m) s"
  shows "store (resetNotify gid s) = store s
    \<and> (\<forall>m \<in> set (getGuildScheduledMessages gid s).
          timersFor (msgId m) (resetNotify gid s) = [])
    \<and> timeouts (snd (resetClear env n gid (resetNotify gid s))) = timeouts (resetNotify gid s)
    \<and> activeTimers (snd (resetClear env n gid (resetNotify gid s)))
        = activeTimers (resetNotify gid s)
    \<and> resetGuildConfig env n gid s = resetClear env n gid (resetNotify gid s)
    \<and> getGuildScheduledMessages gid (snd (resetGuildConfig env n gid s)) = []
    \<and> (\<forall>m \<in> set (getGuildScheduledMessages gid s).
          timersFor (msgId m) (snd (resetGuildConfig env n gid s)) = [])"
proof -
  have cleared: "\<forall>m \<in> set (getGuildScheduledMessages gid s).
          timersFor (msgId m) (resetNotify gid s) = []"
  proof
    fix m assume m: "m \<in> set (getGuildScheduledMessages gid s)"
    with tr have "tracked (msgId m) s" by blast
    moreover from m have "msgId m \<in> msgId ` set (getGuildScheduledMessages gid s)" by simp
    ultimately show "timersFor (msgId m) (resetNotify gid s) = []"
      using bc li by (intro resetNotify_clears)
  qed
  have comp: "resetGuildConfig env n gid s = resetClear env n gid (resetNotify gid s)"
    using bc by (simp add: resetGuildConfig_def)
  show ?thesis
    using cleared
    by (simp add: comp store_resetNotify timers_resetClear timersFor_resetClear
        listed_after_resetClear)
qed

lemma reset_cancels_then_deletes_witness:
  "botClient ex_dailyArmed \<and> listening ex_dailyArmed
   \<and> list_all (\<lambda>m. tracked (msgId m) ex_dailyArmed) (getGuildScheduledMessages ''100'' ex_dailyArmed)
   \<and> getGuildScheduledMessages ''100'' ex_dailyArmed = [ex_daily]
   \<and> timersFor ''100-17'' ex_dailyArmed = [(0, ex_daily, 14399998)]
   \<and> timersFor ''100-17'' (resetNotify ''100'' ex_dailyArmed) = []
   \<and> store (resetNotify ''100'' ex_dailyArmed) = store ex_dailyArmed
   \<and> getGuildScheduledMessages ''100'' (snd (resetGuildConfig ex_fsOk 0 ''100'' ex_dailyArmed)) = []
   \<and> timersFor ''100-17'' (snd (resetGuildConfig ex_fsOk 0 ''100'' ex_dailyArmed)) = []"
proof -
  have bc: "botClient ex_dailyArmed" and li: "listening ex_dailyArmed"
    by (simp_all add: ex_defs)
  have l: "getGuildScheduledMessages ''100'' ex_dailyArmed = [ex_daily]"
    by (simp add: store_defs ex_dailyArmed_def ex_started_def ex_emptyStore_def)
  have t0: "tracked (msgId ex_daily) ex_dailyArmed"
    by (simp add: tracked_def ex_defs)
  have tr: "\<forall>m \<in> set (getGuildScheduledMessages ''100'' ex_dailyArmed).
              tracked (msgId m) ex_dailyArmed"
    using t0 by (simp add: l)
  have before: "timersFor ''100-17'' ex_dailyArmed = [(0, ex_daily, 14399998)]"
    by (simp add: timersFor_def ex_defs)
  from reset_cancels_then_deletes [OF bc li tr, of ex_fsOk 0]
  have "\<forall>m \<in> set (getGuildScheduledMessages ''100'' ex_dailyArmed).
          timersFor (msgId m) (resetNotify ''100'' ex_dailyArmed) = []"
    and r1: "store (resetNotify ''100'' ex_dailyArmed) = store ex_dailyArmed"
    and r2: "getGuildScheduledMessages ''100''
               (snd (resetGuildConfig ex_fsOk 0 ''100'' ex_dailyArmed)) = []"
    and "\<forall>m \<in> set (getGuildScheduledMessages ''100'' ex_dailyArmed).
          timersFor (msgId m) (snd (resetGuildConfig ex_fsOk 0 ''100'' ex_dailyArmed)) = []"
    by blast+
  then have r3: "timersFor ''100-17'' (resetNotify ''100'' ex_dailyArmed) = []"
    and r4: "timersFor ''100-17'' (snd (resetGuildConfig ex_fsOk 0 ''100'' ex_dailyArmed)) = []"
    by (simp_all add: l ex_daily_def)
  from bc li t0 l before r1 r2 r3 r4 show ?thesis by simp
qed

text \<open>
  \<^bold>\<open>C3.\<close>  The code at the failing input: the bot is started (client registered, scheduler
  listening), the daily entry of guild \<open>100\<close> is armed, its timer fires and the send is
  under way when \<^verbatim>\<open>/reset\<close> is used.  The notification finds no pending timer to clear.
  The send is fulfilled during the reset's wait of 500 ms, and the entry is armed again.
  Then the reset clears the store.  When the reset returns the guild's entry list is
  empty and a timeout for the entry is pending; when that one fires, the entry is handed
  to \<^verbatim>\<open>channel.send\<close> a second time.
\<close>

theorem reset_during_send_leaves_timer:
  "botClient ex_dailyArmed \<and> listening ex_dailyArmed
   \<and> timersFor ''100-17'' (resetNotify ''100'' (timerExpires 0 ChannelReady ex_dailyArmed)) = []
   \<and> getGuildScheduledMessages ''100''
        (snd (resetClear ex_fsOk 0 ''100''
           (executeResume ex_fsOk ex_now ex_now True ex_daily
              (resetNotify ''100'' (timerExpires 0 ChannelReady ex_dailyArmed))))) = []
   \<and> timersFor ''100-17''
        (snd (resetClear ex_fsOk 0 ''100''
           (executeResume ex_fsOk ex_now ex_now True ex_daily
              (resetNotify ''100'' (timerExpires 0 ChannelReady ex_dailyArmed)))))
       = [(1, ex_daily, 14399998)]
   \<and> delivered
        (timerExpires 1 ChannelReady
           (snd (resetClear ex_fsOk 0 ''100''
              (executeResume ex_fsOk ex_now ex_now True ex_daily
                 (resetNotify ''100'' (timerExpires 0 ChannelReady ex_dailyArmed))))))
       = [''100-17'', ''100-17'']"
proof -
  have d: "calculateNextExecution ex_now ex_now (schedule ex_daily) = Some 14399998"
    using daily_calc by (simp add: ex_daily_def)
  have bl: "botClient ex_dailyArmed" "listening ex_dailyArmed"
    by (simp_all add: ex_dailyArmed_def ex_started_def)
  have s1: "timerExpires 0 ChannelReady ex_dailyArmed
      = ex_dailyArmed\<lparr>timeouts := [], delivered := [''100-17''], inFlight := [ex_daily]\<rparr>"
    by (simp add: sched_defs ex_dailyArmed_def ex_started_def ex_daily_def)
  have s2: "resetNotify ''100''
        (ex_dailyArmed\<lparr>timeouts := [], delivered := [''100-17''], inFlight := [ex_daily]\<rparr>)
      = ex_dailyArmed\<lparr>timeouts := [], delivered := [''100-17''], inFlight := [ex_daily],
          activeTimers := []\<rparr>"
    by (simp add: resetNotify_def emitGuildConfigReset_def sched_defs store_defs Let_def
        ex_dailyArmed_def ex_started_def ex_emptyStore_def ex_daily_def)
  have s3: "executeResume ex_fsOk ex_now ex_now True ex_daily
        (ex_dailyArmed\<lparr>timeouts := [], delivered := [''100-17''], inFlight := [ex_daily],
          activeTimers := []\<rparr>)
      = ex_dailyArmed\<lparr>timeouts := [(1, ex_daily, 14399998)], delivered := [''100-17''],
          inFlight := [], activeTimers := [(''100-17'', 1)], nextTimer := 2\<rparr>"
    using d
    by (simp add: sched_defs Let_def ex_dailyArmed_def ex_started_def)
       (simp add: ex_daily_def)
  have c1: "timersFor ''100-17'' (resetNotify ''100'' (timerExpires 0 ChannelReady ex_dailyArmed))
              = []"
    unfolding s1 s2 by (simp add: timersFor_def ex_dailyArmed_def ex_started_def)
  have c2: "getGuildScheduledMessages ''100''
        (snd (resetClear ex_fsOk 0 ''100''
           (executeResume ex_fsOk ex_now ex_now True ex_daily
              (resetNotify ''100'' (timerExpires 0 ChannelReady ex_dailyArmed))))) = []"
    by (rule listed_after_resetClear)
  have c3: "timersFor ''100-17''
        (snd (resetClear ex_fsOk 0 ''100''
           (executeResume ex_fsOk ex_now ex_now True ex_daily
              (resetNotify ''100'' (timerExpires 0 ChannelReady ex_dailyArmed)))))
       = [(1, ex_daily, 14399998)]"
    unfolding s1 s2 s3 timersFor_resetClear
    by (simp add: timersFor_def ex_dailyArmed_def ex_started_def ex_daily_def)
  have t4: "timeouts (snd (resetClear ex_fsOk 0 ''100''
              (executeResume ex_fsOk ex_now ex_now True ex_daily
                 (resetNotify ''100'' (timerExpires 0 ChannelReady ex_dailyArmed)))))
            = [(1, ex_daily, 14399998)]"
    unfolding s1 s2 s3 timers_resetClear by (simp add: ex_dailyArmed_def ex_started_def)
  have d4: "delivered (snd (resetClear ex_fsOk 0 ''100''
              (executeResume ex_fsOk ex_now ex_now True ex_daily
                 (resetNotify ''100'' (timerExpires 0 ChannelReady ex_dailyArmed)))))
            = [''100-17'']"
    unfolding s1 s2 s3
    by (simp add: resetClear_def Let_def saveToFile_def ex_fsOk_def ex_dailyArmed_def
        ex_started_def)
  have c4: "delivered
        (timerExpires 1 ChannelReady
           (snd (resetClear ex_fsOk 0 ''100''
              (executeResume ex_fsOk ex_now ex_now True ex_daily
                 (resetNotify ''100'' (timerExpires 0 ChannelReady ex_dailyArmed))))))
       = [''100-17'', ''100-17'']"
  proof -
    have "delivered (timerExpires h ChannelReady S) = delivered S @ [msgId m]"
      if "timeouts S = [(h, m, dl)]" for h S m and dl :: int
      using that by (simp add: timerExpires_def executeBegin_def clearTimeout_def)
    from this [OF t4] show ?thesis unfolding d4 by (simp add: ex_daily_def)
  qed
  from bl c1 c2 c3 c4 show ?thesis by blast
qed

text \<open>
  What a cancellation does to a pending timeout.  After \<open>cancelScheduledMessage\<close>, after
  the whole \<^verbatim>\<open>/remove-scheduled\<close> command (which also takes the entry out of the guild's
  list), and after the reset notification (for a stored entry of the guild, with a
  registered client and a listening scheduler), no timeout for the entry is pending, and
  the expiry of a timer in that state does not hand the entry to \<^verbatim>\<open>channel.send\<close>.  The
  registry is assumed to track the entry.  A fire of the entry that is under way when the
  cancellation runs is not covered by this.
\<close>

lemma cancel_clears_pending_timer:
  assumes tr: "tracked i s"
  shows "timersFor i (snd (cancelScheduledMessage i s)) = []
    \<and> (\<forall>h chk. count_list (delivered (timerExpires h chk (snd (cancelScheduledMessage i s)))) i
                  = count_list (delivered s) i)
    \<and> (find (\<lambda>msg. name msg = messageName) (getGuildScheduledMessages gid s) = Some m
        \<and> msgId m = i \<longrightarrow>
         timersFor i (snd (removeScheduledCommand env gid messageName s)) = []
         \<and> i \<notin> msgId ` set (getGuildScheduledMessages gid
                               (snd (removeScheduledCommand env gid messageName s)))
         \<and> (\<forall>h chk. count_list (delivered (timerExpires h chk
                          (snd (removeScheduledCommand env gid messageName s)))) i
                       = count_list (delivered s) i))
    \<and> (botClient s \<and> listening s \<and> i \<in> msgId ` set (getGuildScheduledMessages gid s) \<longrightarrow>
         timersFor i (resetNotify gid s) = []
         \<and> (\<forall>h chk. count_list (delivered (timerExpires h chk (resetNotify gid s))) i
                       = count_list (delivered s) i))"
proof (intro conjI allI impI)
  show c: "timersFor i (snd (cancelScheduledMessage i s)) = []"
    using tr by (rule cancelScheduledMessage_clears)
  fix h chk
  show "count_list (delivered (timerExpires h chk (snd (cancelScheduledMessage i s)))) i
          = count_list (delivered s) i"
    using no_timer_no_delivery [OF c, of h chk] by (simp add: delivered_cancelScheduledMessage)
next
  assume a: "find (\<lambda>msg. name msg = messageName) (getGuildScheduledMessages gid s) = Some m
        \<and> msgId m = i"
  then have f: "find (\<lambda>msg. name msg = messageName) (getGuildScheduledMessages gid s) = Some m"
    and i: "msgId m = i" by simp_all
  from tr i have trm: "tracked (msgId m) s" by simp
  note R = remove_command_clears [OF f trm, of env, unfolded i]
  from R show r: "timersFor i (snd (removeScheduledCommand env gid messageName s)) = []" by simp
  from R show "i \<notin> msgId ` set (getGuildScheduledMessages gid
                               (snd (removeScheduledCommand env gid messageName s)))" by simp
  fix h chk
  from R have "delivered (snd (removeScheduledCommand env gid messageName s)) = delivered s"
    by simp
  then show "count_list (delivered (timerExpires h chk
                          (snd (removeScheduledCommand env gid messageName s)))) i
                       = count_list (delivered s) i"
    using no_timer_no_delivery [OF r, of h chk] by simp
next
  assume a: "botClient s \<and> listening s \<and> i \<in> msgId ` set (getGuildScheduledMessages gid s)"
  with tr show r: "timersFor i (resetNotify gid s) = []"
    by (intro resetNotify_clears) simp_all
  fix h chk
  show "count_list (delivered (timerExpires h chk (resetNotify gid s))) i
          = count_list (delivered s) i"
    using no_timer_no_delivery [OF r, of h chk] by (simp add: delivered_resetNotify)
qed

lemma cancel_clears_pending_timer_witness:
  "tracked ''100-17'' ex_dailyArmed
   \<and> timersFor ''100-17'' ex_dailyArmed = [(0, ex_daily, 14399998)]
   \<and> timersFor ''100-17'' (snd (cancelScheduledMessage ''100-17'' ex_dailyArmed)) = []
   \<and> count_list (delivered (timerExpires 0 ChannelReady
         (snd (cancelScheduledMessage ''100-17'' ex_dailyArmed)))) ''100-17'' = 0
   \<and> find (\<lambda>msg. name msg = ''news'') (getGuildScheduledMessages ''100'' ex_dailyArmed)
        = Some ex_daily
   \<and> timersFor ''100-17'' (snd (removeScheduledCommand ex_fsOk ''100'' ''news'' ex_dailyArmed)) = []
   \<and> ''100-17'' \<notin> msgId ` set (getGuildScheduledMessages ''100''
         (snd (removeScheduledCommand ex_fsOk ''100'' ''news'' ex_dailyArmed)))
   \<and> botClient ex_dailyArmed \<and> listening ex_dailyArmed
   \<and> ''100-17'' \<in> msgId ` set (getGuildScheduledMessages ''100'' ex_dailyArmed)
   \<and> timersFor ''100-17'' (resetNotify ''100'' ex_dailyArmed) = []
   \<and> count_list (delivered (timerExpires 0 ChannelReady (resetNotify ''100'' ex_dailyArmed)))
        ''100-17'' = 0"
proof -
  have t0: "tracked ''100-17'' ex_dailyArmed"
    by (simp add: tracked_def ex_defs)
  have before: "timersFor ''100-17'' ex_dailyArmed = [(0, ex_daily, 14399998)]"
    by (simp add: timersFor_def ex_defs)
  have bc: "botClient ex_dailyArmed" and li: "listening ex_dailyArmed"
    by (simp_all add: ex_defs)
  have l: "''100-17'' \<in> msgId ` set (getGuildScheduledMessages ''100'' ex_dailyArmed)"
    by (simp add: store_defs ex_defs)
  have f: "find (\<lambda>msg. name msg = ''news'') (getGuildScheduledMessages ''100'' ex_dailyArmed)
             = Some ex_daily"
    by (simp add: store_defs ex_defs)
  have i: "msgId ex_daily = ''100-17''" by (simp add: ex_daily_def)
  have d0: "count_list (delivered ex_dailyArmed) ''100-17'' = 0"
    by (simp add: ex_defs)
  from cancel_clears_pending_timer [OF t0, of "''news''" "''100''" ex_daily ex_fsOk] bc li l f i
  have "timersFor ''100-17'' (snd (cancelScheduledMessage ''100-17'' ex_dailyArmed)) = []"
    and "count_list (delivered (timerExpires 0 ChannelReady
           (snd (cancelScheduledMessage ''100-17'' ex_dailyArmed)))) ''100-17''
         = count_list (delivered ex_dailyArmed) ''100-17''"
    and "timersFor ''100-17'' (snd (removeScheduledCommand ex_fsOk ''100'' ''news'' ex_dailyArmed))
         = []"
    and "''100-17'' \<notin> msgId ` set (getGuildScheduledMessages ''100''
           (snd (removeScheduledCommand ex_fsOk ''100'' ''news'' ex_dailyArmed)))"
    and "timersFor ''100-17'' (resetNotify ''100'' ex_dailyArmed) = []"
    and "count_list (delivered (timerExpires 0 ChannelReady (resetNotify ''100'' ex_dailyArmed)))
           ''100-17'' = count_list (delivered ex_dailyArmed) ''100-17''"
    by blast+
  with t0 before bc li l f d0 show ?thesis by simp
qed

text \<open>
  \<^bold>\<open>C1.\<close>  The code at the failing input: the daily entry is armed; its timer fires and
  the send is under way; the entry is removed with \<^verbatim>\<open>/remove-scheduled\<close>, which replies
  that the message is stopped; the send is fulfilled.  Nothing consults the store or the
  cancellation before re-arming: now the entry is absent from the store and a new timeout
  for it is pending, and when that one fires the entry is handed to \<^verbatim>\<open>channel.send\<close> a
  second time.
\<close>

theorem remove_during_send_rearms_entry:
  "fst (removeScheduledCommand ex_fsOk ''100'' ''news''
          (timerExpires 0 ChannelReady ex_dailyArmed)) = ScheduledMessageRemoved True
   \<and> getGuildScheduledMessages ''100''
        (executeResume ex_fsOk ex_now ex_now True ex_daily
           (snd (removeScheduledCommand ex_fsOk ''100'' ''news''
                   (timerExpires 0 ChannelReady ex_dailyArmed)))) = []
   \<and> timersFor ''100-17''
        (executeResume ex_fsOk ex_now ex_now True ex_daily
           (snd (removeScheduledCommand ex_fsOk ''100'' ''news''
                   (timerExpires 0 ChannelReady ex_dailyArmed))))
       = [(1, ex_daily, 14399998)]
   \<and> delivered
        (timerExpires 1 ChannelReady
           (executeResume ex_fsOk ex_now ex_now True ex_daily
              (snd (removeScheduledCommand ex_fsOk ''100'' ''news''
                      (timerExpires 0 ChannelReady ex_dailyArmed)))))
       = [''100-17'', ''100-17'']"
proof -
  have d: "calculateNextExecution ex_now ex_now (schedule ex_daily) = Some 14399998"
    using daily_calc by (simp add: ex_daily_def)
  have s1: "timerExpires 0 ChannelReady ex_dailyArmed
      = ex_dailyArmed\<lparr>timeouts := [], delivered := [''100-17''], inFlight := [ex_daily]\<rparr>"
    by (simp add: sched_defs ex_dailyArmed_def ex_started_def ex_daily_def)
  have s2: "removeScheduledCommand ex_fsOk ''100'' ''news''
        (ex_dailyArmed\<lparr>timeouts := [], delivered := [''100-17''], inFlight := [ex_daily]\<rparr>)
      = (ScheduledMessageRemoved True,
         ex_dailyArmed\<lparr>timeouts := [], delivered := [''100-17''], inFlight := [ex_daily],
           activeTimers := [],
           store := ex_emptyStore\<lparr>scheduledMessages := [(''100'', [])]\<rparr>,
           storageFile :=
             Some (ex_emptyStore\<lparr>scheduledMessages := [(''100'', [])]\<rparr>, 1706695200003)\<rparr>)"
    by (simp add: removeScheduledCommand_def sched_defs store_defs Let_def
        ex_dailyArmed_def ex_started_def ex_emptyStore_def ex_daily_def ex_fsOk_def)
  have s3: "executeResume ex_fsOk ex_now ex_now True ex_daily
        (ex_dailyArmed\<lparr>timeouts := [], delivered := [''100-17''], inFlight := [ex_daily],
           activeTimers := [],
           store := ex_emptyStore\<lparr>scheduledMessages := [(''100'', [])]\<rparr>,
           storageFile :=
             Some (ex_emptyStore\<lparr>scheduledMessages := [(''100'', [])]\<rparr>, 1706695200003)\<rparr>)
      = ex_dailyArmed\<lparr>timeouts := [(1, ex_daily, 14399998)], delivered := [''100-17''],
           inFlight := [], activeTimers := [(''100-17'', 1)], nextTimer := 2,
           store := ex_emptyStore\<lparr>scheduledMessages := [(''100'', [])]\<rparr>,
           storageFile :=
             Some (ex_emptyStore\<lparr>scheduledMessages := [(''100'', [])]\<rparr>, 1706695200003)\<rparr>"
    using d
    by (simp add: sched_defs Let_def ex_dailyArmed_def ex_started_def)
       (simp add: ex_daily_def)
  show ?thesis
    unfolding s1 s2 snd_conv fst_conv s3
    by (simp add: sched_defs store_defs ex_dailyArmed_def ex_started_def ex_emptyStore_def)
       (simp add: ex_daily_def)
qed

section \<open>A failed write to the file\<close>













lemma inMemory_cancelScheduledMessage:
  "inMemory (snd (cancelScheduledMessage i s)) = snd (cancelScheduledMessage i (inMemory s))"
  by (simp add: cancelScheduledMessage_def clearTimeout_def inMemory_def split: option.splits)








section \<open>After the fire\<close>

text \<open>When the send is rejected, control passes to the \<^verbatim>\<open>catch\<close> block: the error is
  logged and nothing else happens, whatever the entry.  No timeout is set, the registry
  and the store stay as they are.\<close>

lemma failed_send_only_logs:
  "executeResume env now now2 False m s
     = s\<lparr>inFlight := remove1 m (inFlight s),
         errorLog := errorLog s @ [''Error executing scheduled message'']\<rparr>"
  by (simp add: executeResume_def)

lemma early_return_only_logs:
  assumes "chk \<noteq> ChannelReady"
  shows "timeouts (executeScheduledMessage env now now2 chk sendOk m s) = timeouts s
    \<and> activeTimers (executeScheduledMessage env now now2 chk sendOk m s) = activeTimers s
    \<and> store (executeScheduledMessage env now now2 chk sendOk m s) = store s"
  using assms by (cases chk) (simp_all add: executeScheduledMessage_def executeBegin_def)

text \<open>After a fulfilled send a recurring entry with a valid next delay is armed again.\<close>

lemma fulfilled_send_rearms:
  assumes "recurring m" "tracked (msgId m) s" "handlesFresh s"
    and "calculateNextExecution now now2 (schedule m) = Some d" "0 < d"
  shows "timersFor (msgId m) (executeResume env now now2 True m s)
           = [(nextTimer s, m, timeoutDelay d)]"
proof -
  let ?s = "s\<lparr>inFlight := remove1 m (inFlight s)\<rparr>"
  have "tracked (msgId m) ?s" "handlesFresh ?s"
    using assms(2,3) by (simp_all add: tracked_def handlesFresh_def)
  from arm_once [OF this assms(4,5)] show ?thesis
    using assms(1) by (simp add: executeResume_def)
qed

text \<open>After a fulfilled send a one-time entry is gone from the guild's list and from the
  registry.\<close>

lemma fulfilled_send_retires_once:
  assumes "\<not> recurring m"
  shows "msgId m \<notin> msgId ` set (getGuildScheduledMessages (guildId m)
                                  (executeResume env now now2 True m s))
    \<and> map_of (activeTimers (executeResume env now now2 True m s)) (msgId m) = None"
proof -
  let ?s = "s\<lparr>inFlight := remove1 m (inFlight s)\<rparr>"
  have "getGuildScheduledMessages (guildId m) (executeResume env now now2 True m s)
          = getGuildScheduledMessages (guildId m)
              (snd (removeScheduledMessage env (guildId m) (msgId m) ?s))"
    using assms by (simp add: executeResume_def Let_def split_beta getGuildScheduledMessages_def)
  moreover have "map_of (activeTimers (executeResume env now now2 True m s)) (msgId m) = None"
    using assms by (simp add: executeResume_def Let_def split_beta delete_conv')
  ultimately show ?thesis using removed_not_listed [of "msgId m" "guildId m" env ?s] by simp
qed

text \<open>
  \<^bold>\<open>C2.\<close>  The code at the failing input: the daily entry fires and its send is rejected.
  Afterwards no timeout is pending for the entry (none at all), although the entry is
  still stored; only the error has been logged.  The same fire with a fulfilled send arms
  the entry again, and a fire that finds no channel also leaves the entry without a timer.
\<close>

theorem rejected_send_stops_daily_entry:
  "timersFor ''100-17''
      (executeResume ex_fsOk ex_now ex_now False ex_daily
         (timerExpires 0 ChannelReady ex_dailyArmed)) = []
   \<and> timeouts
        (executeResume ex_fsOk ex_now ex_now False ex_daily
           (timerExpires 0 ChannelReady ex_dailyArmed)) = []
   \<and> getGuildScheduledMessages ''100''
        (executeResume ex_fsOk ex_now ex_now False ex_daily
           (timerExpires 0 ChannelReady ex_dailyArmed)) = [ex_daily]
   \<and> errorLog
        (executeResume ex_fsOk ex_now ex_now False ex_daily
           (timerExpires 0 ChannelReady ex_dailyArmed)) = [''Error executing scheduled message'']
   \<and> timersFor ''100-17''
        (executeResume ex_fsOk ex_now ex_now True ex_daily
           (timerExpires 0 ChannelReady ex_dailyArmed)) = [(1, ex_daily, 14399998)]
   \<and> timeouts (timerExpires 0 ChannelNotFound ex_dailyArmed) = []"
proof -
  have d: "calculateNextExecution ex_now ex_now (schedule ex_daily) = Some 14399998"
    using daily_calc by (simp add: ex_daily_def)
  have s1: "timerExpires 0 ChannelReady ex_dailyArmed
      = ex_dailyArmed\<lparr>timeouts := [], delivered := [''100-17''], inFlight := [ex_daily]\<rparr>"
    by (simp add: sched_defs ex_dailyArmed_def ex_started_def ex_daily_def)
  have s3: "executeResume ex_fsOk ex_now ex_now True ex_daily
        (ex_dailyArmed\<lparr>timeouts := [], delivered := [''100-17''], inFlight := [ex_daily]\<rparr>)
      = ex_dailyArmed\<lparr>timeouts := [(1, ex_daily, 14399998)], delivered := [''100-17''],
          inFlight := [], activeTimers := [(''100-17'', 1)], nextTimer := 2\<rparr>"
    using d
    by (simp add: sched_defs Let_def ex_dailyArmed_def ex_started_def)
       (simp add: ex_daily_def)
  have s4: "timeouts (timerExpires 0 ChannelNotFound ex_dailyArmed) = []"
    by (simp add: sched_defs ex_dailyArmed_def ex_started_def ex_daily_def)
  have "timersFor ''100-17''
      (executeResume ex_fsOk ex_now ex_now False ex_daily
         (timerExpires 0 ChannelReady ex_dailyArmed)) = []"
    and "timeouts
        (executeResume ex_fsOk ex_now ex_now False ex_daily
           (timerExpires 0 ChannelReady ex_dailyArmed)) = []"
    and "getGuildScheduledMessages ''100''
        (executeResume ex_fsOk ex_now ex_now False ex_daily
           (timerExpires 0 ChannelReady ex_dailyArmed)) = [ex_daily]"
    and "errorLog
        (executeResume ex_fsOk ex_now ex_now False ex_daily
           (timerExpires 0 ChannelReady ex_dailyArmed)) = [''Error executing scheduled message'']"
    unfolding s1 failed_send_only_logs
    by (simp_all add: timersFor_def store_defs ex_dailyArmed_def ex_started_def
        ex_emptyStore_def)
  moreover have "timersFor ''100-17''
        (executeResume ex_fsOk ex_now ex_now True ex_daily
           (timerExpires 0 ChannelReady ex_dailyArmed)) = [(1, ex_daily, 14399998)]"
    unfolding s1 s3 by (simp add: timersFor_def ex_daily_def)
  ultimately show ?thesis using s4 by blast
qed

text \<open>
  \<^bold>\<open>C4.\<close>  The code at the failing input: the one-time entry fires and its send is
  rejected.  Afterwards the entry is still in the guild's list and \<open>activeTimers\<close> still
  holds its (spent) handle.  The same fire with a fulfilled send removes it from both, and
  a fire that finds no channel also leaves it stored.
\<close>

theorem rejected_send_keeps_once_entry:
  "getGuildScheduledMessages ''100''
      (executeResume ex_fsOk ex_now ex_now False ex_once
         (timerExpires 0 ChannelReady ex_onceArmed)) = [ex_once]
   \<and> map_of (activeTimers
        (executeResume ex_fsOk ex_now ex_now False ex_once
           (timerExpires 0 ChannelReady ex_onceArmed))) ''100-18'' = Some 0
   \<and> getGuildScheduledMessages ''100''
        (executeResume ex_fsOk ex_now ex_now True ex_once
           (timerExpires 0 ChannelReady ex_onceArmed)) = []
   \<and> activeTimers
        (executeResume ex_fsOk ex_now ex_now True ex_once
           (timerExpires 0 ChannelReady ex_onceArmed)) = []
   \<and> getGuildScheduledMessages ''100'' (timerExpires 0 ChannelNotFound ex_onceArmed) = [ex_once]
   \<and> map_of (activeTimers (timerExpires 0 ChannelNotFound ex_onceArmed)) ''100-18'' = Some 0"
proof -
  have s1: "timerExpires 0 ChannelReady ex_onceArmed
      = ex_onceArmed\<lparr>timeouts := [], delivered := [''100-18''], inFlight := [ex_once]\<rparr>"
    by (simp add: sched_defs ex_onceArmed_def ex_started_def ex_once_def)
  have s2: "timerExpires 0 ChannelNotFound ex_onceArmed
      = ex_onceArmed\<lparr>timeouts := [],
          errorLog := [''Scheduled message channel not found'']\<rparr>"
    by (simp add: sched_defs ex_onceArmed_def ex_started_def ex_once_def)
  have s3: "executeResume ex_fsOk ex_now ex_now True ex_once
        (ex_onceArmed\<lparr>timeouts := [], delivered := [''100-18''], inFlight := [ex_once]\<rparr>)
      = ex_onceArmed\<lparr>timeouts := [], delivered := [''100-18''], inFlight := [],
          activeTimers := [],
          store := ex_emptyStore\<lparr>scheduledMessages := [(''100'', [])]\<rparr>,
          storageFile :=
            Some (ex_emptyStore\<lparr>scheduledMessages := [(''100'', [])]\<rparr>, 1706695200003)\<rparr>"
    by (simp add: sched_defs store_defs Let_def ex_onceArmed_def ex_started_def
        ex_emptyStore_def ex_fsOk_def)
       (simp add: ex_once_def)
  show ?thesis
    unfolding s1 s2 s3 failed_send_only_logs
    by (simp add: store_defs ex_onceArmed_def ex_started_def ex_emptyStore_def)
qed

end
